theory Spec2Isabelle
  imports Main
begin

section \<open>Values, errors and records (src/snss/lib/node.py)\<close>

text \<open>
  Python values that occur as field values, discriminator tags, buffers and handler
  results. A \<open>dict\<close> is a finite map from keys to values; a key of a field mapping
  is a string or \<open>None\<close> (\<open>Tree.read\<close> can store a field under the key \<open>None\<close>).
\<close>

datatype pyval =
    PNone
  | PInt int
  | PStr string
  | PBytes "nat list"
  | PDict "string option \<Rightarrow> pyval option"

type_synonym fields = "string option \<Rightarrow> pyval option"

type_synonym cname = string

text \<open>
  Exceptions as values. \<open>NotImplementedError\<close> carries the three values that the
  f-string of \<open>Tree.switch\<close> interpolates, in their order: the tag, the case key (or the
  text written for an empty one) and the context. \<open>NonException\<close> stands for the
  exceptions outside the \<open>Exception\<close> hierarchy (KeyboardInterrupt, SystemExit,
  GeneratorExit), which \<open>except Exception\<close> does not catch.
\<close>

datatype error =
    NotImplementedError pyval string pyval
  | TypeError string
  | KeyError pyval
  | AttributeError string
  | ValueError string
  | RecursionError
  | UserException string
  | NonException string

fun is_Exception :: "error \<Rightarrow> bool" where
  "is_Exception (NonException _) = False"
| "is_Exception _ = True"

text \<open>A Node instance: its class, \<open>_data\<close>, \<open>buffer\<close> and \<open>origin\<close>.\<close>

record node_obj =
  node_cls :: cname
  node_data :: fields
  node_buffer :: pyval
  node_origin :: pyval

text \<open>
  A Node class: the class attributes that \<open>Node\<close> and \<open>Tree\<close> read, and the method
  \<open>update\<close>, which a subclass can override (\<open>feed\<close> calls \<open>self.update()\<close>).
  \<open>switch_spec\<close> is \<open>None\<close> until \<open>Tree.case\<close> sets it. \<open>registry_ref\<close> is the
  identity of the WeakSet object the attribute \<open>registry\<close> points to: the name of the
  class for which \<open>__init_subclass__\<close> made it (\<open>on_register\<close> with \<open>node_cls\<close> makes
  a case share the registry of its tree).
\<close>

record node_class =
  is_tree :: bool
  case_key :: "string option"
  data_key :: "string option"
  default_node :: "cname option"
  has_switch :: bool
  nodes :: "(pyval \<times> cname) list"
  switch_spec :: "(cname \<times> pyval) option"
  registry_ref :: cname
  update_method :: "node_obj \<Rightarrow> node_obj"

type_synonym class_env = "cname \<Rightarrow> node_class"

text \<open>
  The two abstract methods \<open>_dump\<close> and \<open>_read\<close> of a class, which its schema supplies
  (in src/snss/protocol.py through the construct library, which is outside the sources):
  they are parameters, one pair per class. \<open>_dump\<close> reads the fields and the context,
  \<open>_read\<close> the buffer and the context, and returns fields or \<open>None\<close>.
\<close>

record codec =
  dump_codec :: "fields \<Rightarrow> pyval \<Rightarrow> error + pyval"
  read_codec :: "pyval \<Rightarrow> pyval \<Rightarrow> error + fields option"

type_synonym codecs = "cname \<Rightarrow> codec"

text \<open>\<open>Node.__init__(**data)\<close>.\<close>

definition Node_init :: "cname \<Rightarrow> fields \<Rightarrow> node_obj" where
  "Node_init c d = \<lparr>node_cls = c, node_data = d, node_buffer = PNone, node_origin = PNone\<rparr>"

text \<open>
  \<open>Node.discard_keys(*keys)\<close>: each key that is present when it is reached is deleted.
\<close>

fun Node_discard_keys :: "node_obj \<Rightarrow> string option list \<Rightarrow> node_obj" where
  "Node_discard_keys self [] = self"
| "Node_discard_keys self (k # ks) =
     (if k \<in> dom (node_data self)
      then Node_discard_keys (self\<lparr>node_data := (node_data self)(k := None)\<rparr>) ks
      else Node_discard_keys self ks)"

text \<open>
  \<open>Node.update\<close>, and \<open>Command.update\<close> of src/snss/protocol.py, which overrides it:
  \<open>super().update()\<close>, then \<open>self.discard_keys('_io')\<close>.
\<close>

definition Node_update :: "node_obj \<Rightarrow> node_obj" where
  "Node_update self = self\<lparr>node_buffer := PNone, node_origin := PNone\<rparr>"

definition Command_update :: "node_obj \<Rightarrow> node_obj" where
  "Command_update self = Node_discard_keys (Node_update self) [Some ''_io'']"

text \<open>
  \<open>Node.feed\<close>, \<open>Node.dump\<close>, \<open>Node.read\<close>. \<open>feed\<close> calls the \<open>update\<close> of the
  object's class; \<open>_dump\<close> and \<open>_read\<close> are those of the object's class. \<open>dump\<close>
  returns the buffer (or the exception of \<open>_dump\<close>) and the object as it leaves it.
\<close>

definition Node_feed :: "class_env \<Rightarrow> node_obj \<Rightarrow> fields \<Rightarrow> node_obj" where
  "Node_feed env self changes =
     update_method (env (node_cls self)) (self\<lparr>node_data := node_data self ++ changes\<rparr>)"

definition Node_dump :: "codecs \<Rightarrow> node_obj \<Rightarrow> pyval \<Rightarrow> (error + pyval) \<times> node_obj" where
  "Node_dump cd self context =
     (if node_buffer self = PNone
      then (case dump_codec (cd (node_cls self)) (node_data self) context of
              Inl e \<Rightarrow> (Inl e, self)
            | Inr b \<Rightarrow> (Inr b, self\<lparr>node_buffer := b\<rparr>))
      else (Inr (node_buffer self), self))"

definition Node_read :: "codecs \<Rightarrow> class_env \<Rightarrow> node_obj \<Rightarrow> pyval \<Rightarrow> pyval \<Rightarrow> error + node_obj" where
  "Node_read cd env self buf context =
     (case read_codec (cd (node_cls self)) buf context of
        Inl e \<Rightarrow> Inl e
      | Inr None \<Rightarrow> Inr self
      | Inr (Some d) \<Rightarrow> Inr ((Node_feed env self d)\<lparr>node_origin := buf\<rparr>))"

text \<open>
  \<open>Node.from_dict(kwargs)\<close> is \<open>cls(**kwargs)\<close>: Python refuses a keyword that is not
  a string (here the key \<open>None\<close>) before \<open>__init__\<close> runs.
\<close>

definition Node_from_dict :: "cname \<Rightarrow> fields \<Rightarrow> error + node_obj" where
  "Node_from_dict c kwargs =
     (if None \<in> dom kwargs then Inl (TypeError ''keywords must be strings'')
      else Inr (Node_init c kwargs))"

section \<open>Variant trees (class Tree)\<close>

text \<open>\<open>MissingSwitchKey\<close> is a sentinel object, distinct from every field value.\<close>

datatype switch_key = MissingSwitchKey | Key pyval

definition Tree_get_switch :: "class_env \<Rightarrow> node_obj \<Rightarrow> pyval \<Rightarrow> error + switch_key" where
  "Tree_get_switch env self context =
     (case case_key (env (node_cls self)) of
        None \<Rightarrow> Inr MissingSwitchKey
      | Some ck \<Rightarrow>
          (case node_data self (Some ck) of
             None \<Rightarrow> Inl (KeyError (PStr ck))
           | Some v \<Rightarrow> Inr (Key v)))"

definition Tree_set_switch :: "class_env \<Rightarrow> node_obj \<Rightarrow> pyval \<Rightarrow> node_obj" where
  "Tree_set_switch env self key =
     self\<lparr>node_data := (node_data self)(case_key (env (node_cls self)) \<mapsto> key)\<rparr>"

text \<open>A dict is not hashable: looking one up in \<open>nodes\<close> raises TypeError.\<close>

fun hashable :: "pyval \<Rightarrow> bool" where
  "hashable (PDict _) = False"
| "hashable _ = True"

text \<open>
  \<open>Tree.switch\<close>. The result \<open>Inr None\<close> is Python's \<open>None\<close> (the bare
  \<open>return\<close> and a \<open>nodes.get\<close> that found nothing), \<open>Inr (Some c)\<close>
  the class found in \<open>nodes\<close>.
\<close>

definition Tree_switch :: "class_env \<Rightarrow> node_obj \<Rightarrow> pyval \<Rightarrow> error + cname option" where
  "Tree_switch env self context =
     (case Tree_get_switch env self context of
        Inl e \<Rightarrow> Inl e
      | Inr MissingSwitchKey \<Rightarrow> Inr None
      | Inr (Key key) \<Rightarrow>
          (if \<not> hashable key then Inl (TypeError ''unhashable type'')
           else
             (let node = map_of (nodes (env (node_cls self))) key in
              if node = None \<and> default_node (env (node_cls self)) = None
              then Inl (NotImplementedError key
                     (case case_key (env (node_cls self)) of
                        None \<Rightarrow> ''(no case key)''
                      | Some ck \<Rightarrow> if ck = [] then ''(no case key)'' else ck)
                     context)
              else Inr node)))"

text \<open>\<open>Tree._node_data\<close>: the payload view.\<close>

definition Tree_node_data :: "class_env \<Rightarrow> node_obj \<Rightarrow> error + pyval" where
  "Tree_node_data env self =
     (if has_switch (env (node_cls self))
      then (case node_data self (data_key (env (node_cls self))) of
              None \<Rightarrow> Inl (KeyError (case data_key (env (node_cls self)) of
                                       None \<Rightarrow> PNone | Some k \<Rightarrow> PStr k))
            | Some v \<Rightarrow> Inr v)
      else Inr (PDict (node_data self)))"

text \<open>
  \<open>Tree.dump(context, standalone)\<close>. The first argument bounds the depth of the
  nested \<open>tree.dump\<close> calls, as the interpreter's recursion limit does: a chain of
  parent links longer than that raises RecursionError. The result is the returned buffer
  (or the exception) and the object \<open>self\<close> as the call leaves it.
\<close>

fun Tree_dump :: "nat \<Rightarrow> codecs \<Rightarrow> class_env \<Rightarrow> node_obj \<Rightarrow> pyval \<Rightarrow> bool \<Rightarrow> (error + pyval) \<times> node_obj" where
  "Tree_dump 0 cd env self context standalone = (Inl RecursionError, self)"
| "Tree_dump (Suc depth) cd env self context standalone =
     (let link = (if \<not> standalone \<and> has_switch (env (node_cls self))
                  then switch_spec (env (node_cls self)) else None)
      in case Node_dump cd self context of
           (Inl e, self1) \<Rightarrow> (Inl e, self1)
         | (Inr b, self1) \<Rightarrow>
             (case link of
                None \<Rightarrow> (Inr (node_buffer self1), self1)
              | Some (tree_cls, switch_key) \<Rightarrow>
                  (case Node_from_dict tree_cls [case_key (env (node_cls self1)) \<mapsto> node_buffer self1] of
                     Inl e \<Rightarrow> (Inl e, self1)
                   | Inr tree \<Rightarrow>
                       (case Tree_dump depth cd env (Tree_set_switch env tree switch_key) context False of
                          (Inl e, _) \<Rightarrow> (Inl e, self1)
                        | (Inr buf, _) \<Rightarrow> (Inr buf, self1)))))"

text \<open>
  \<open>Tree.read(buffer, basic, context)\<close>, with the same bound on the nesting of
  \<open>read\<close> calls. The result is the returned node (or the exception) and \<open>self\<close> as
  the call leaves it; when no variant is resolved the returned node is \<open>self\<close>.
\<close>

fun Tree_read :: "nat \<Rightarrow> codecs \<Rightarrow> class_env \<Rightarrow> node_obj \<Rightarrow> pyval \<Rightarrow> bool \<Rightarrow> pyval \<Rightarrow> (error + node_obj) \<times> node_obj" where
  "Tree_read 0 cd env self buf basic context = (Inl RecursionError, self)"
| "Tree_read (Suc depth) cd env self buf basic context =
     (case Node_read cd env self buf context of
        Inl e \<Rightarrow> (Inl e, self)
      | Inr self1 \<Rightarrow>
          if basic then (Inr self1, self1)
          else
            (case Tree_switch env self1 context of
               Inl e \<Rightarrow> (Inl e, self1)
             | Inr None \<Rightarrow> (Inr self1, self1)
             | Inr (Some node_class) \<Rightarrow>
                 (case Tree_node_data env self1 of
                    Inl e \<Rightarrow> (Inl e, self1)
                  | Inr payload \<Rightarrow>
                      (case (if is_tree (env node_class)
                             then fst (Tree_read depth cd env (Node_init node_class Map.empty) payload False context)
                             else Node_read cd env (Node_init node_class Map.empty) payload context) of
                         Inl e \<Rightarrow> (Inl e, self1)
                       | Inr node \<Rightarrow>
                           (if has_switch (env (node_cls self1))
                            then (Inr node,
                                  Node_feed env self1 [case_key (env (node_cls node)) \<mapsto> node_origin node])
                            else (Inr node, self1))))))"

text \<open>
  \<open>Tree.case(value)(node_cls)\<close>: the class is entered in the tree's table, gets the
  back link, and from then on shares the registry of the tree
  (\<open>node_cls.on_register(node_cls=cls)\<close> with no protocol).
\<close>

fun dict_set :: "('k \<times> 'v) list \<Rightarrow> 'k \<Rightarrow> 'v \<Rightarrow> ('k \<times> 'v) list" where
  "dict_set [] k v = [(k, v)]"
| "dict_set ((k', v') # kvs) k v =
     (if k' = k then (k', v) # kvs else (k', v') # dict_set kvs k v)"

definition Tree_case :: "class_env \<Rightarrow> cname \<Rightarrow> pyval \<Rightarrow> cname \<Rightarrow> class_env" where
  "Tree_case env cls val ncls =
     (let env1 = env(cls := (env cls)\<lparr>nodes := dict_set (nodes (env cls)) val ncls\<rparr>);
          env2 = env1(ncls := (env1 ncls)\<lparr>switch_spec := Some (cls, val)\<rparr>)
      in env2(ncls := (env2 ncls)\<lparr>registry_ref := registry_ref (env2 cls)\<rparr>))"

section \<open>Status, conditions and handlers (src/snss/lib/protocol.py)\<close>

datatype Status = DAEMON | NORMAL | IMPORTANT | URGENT

fun status_value :: "Status \<Rightarrow> int" where
  "status_value DAEMON = 0"
| "status_value NORMAL = 1"
| "status_value IMPORTANT = 2"
| "status_value URGENT = 3"

type_synonym pid = nat
type_synonym pcname = string
type_synonym config = "string \<Rightarrow> pyval option"

text \<open>
  A key of the registry and of the handler table: a Node class or the sentinel object
  \<open>ALL_NODES\<close>, which is an instance of an empty anonymous class and not a class.
\<close>

datatype node_key = ALL_NODES | NodeCls cname

text \<open>
  A condition (class \<open>If\<close>): an object with an identity (dictionaries key it by
  identity), its check, a function of the protocol's configuration and of the node or
  \<open>None\<close>, and the flag \<open>checks_node\<close>.
\<close>

record cond =
  cond_id :: nat
  check :: "config \<Rightarrow> node_obj option \<Rightarrow> bool"
  checks_node :: bool

text \<open>
  The arguments a handler function can receive, and what can be called: a Python
  function, with the two flags that \<open>is_responder\<close> and \<open>is_reducer\<close> may have set on it
  and a body that acts on the state \<open>'w\<close> outside the protocol and returns or raises,
  or the bound method \<open>handle\<close> of a protocol instance. A registered \<open>function\<close> can
  also be a Protocol subclass.
\<close>

datatype arg = AProtocol pid | ANode node_obj | AClass "node_key option" | AValue pyval

datatype 'w callable =
    PyFunction (responder_flag: bool) (reducer_flag: bool)
      (body: "arg list \<Rightarrow> 'w \<Rightarrow> (error + pyval) \<times> 'w")
  | BoundHandle pid

datatype 'w func = Call "'w callable" | ProtocolType pcname

text \<open>The module-level taggers \<open>is_responder\<close> and \<open>is_reducer\<close> (setattr on the function).\<close>

fun is_responder :: "'w callable \<Rightarrow> error + 'w callable" where
  "is_responder (PyFunction r d b) = Inr (PyFunction True d b)"
| "is_responder (BoundHandle p) = Inl (AttributeError ''__responder__'')"

fun is_reducer :: "'w callable \<Rightarrow> error + 'w callable" where
  "is_reducer (PyFunction r d b) = Inr (PyFunction r True b)"
| "is_reducer (BoundHandle p) = Inl (AttributeError ''__reducer__'')"

text \<open>
  The dict that \<open>register_handler\<close> stores (the key \<open>function\<close> can be missing:
  \<open>handle\<close> pops it), and the \<open>Handler\<close> object built from it.
\<close>

record 'w case_dict =
  c_function :: "'w func option"
  c_responder_cls :: "node_key option"
  c_status :: Status
  c_pass_protocol :: bool

record 'w handler =
  h_function :: "'w callable"
  h_responder_cls :: "node_key option"
  h_status :: Status
  h_pass_protocol :: bool

definition Handler_lt :: "'w handler \<Rightarrow> 'w handler \<Rightarrow> bool" where
  "Handler_lt self other = (- status_value (h_status self) < - status_value (h_status other))"

text \<open>
  \<open>getattr(self.function, RESPONDER_FLAG, self.responder_cls) is not None\<close>: the flag, when
  set, is \<open>True\<close>; the bound method \<open>handle\<close> carries no flag.
\<close>

definition Handler_is_responder :: "'w handler \<Rightarrow> bool" where
  "Handler_is_responder self =
     (case h_function self of
        PyFunction r d b \<Rightarrow> (if r then True else h_responder_cls self \<noteq> None)
      | BoundHandle p \<Rightarrow> h_responder_cls self \<noteq> None)"

definition Handler_is_reducer :: "'w handler \<Rightarrow> bool" where
  "Handler_is_reducer self =
     (case h_function self of PyFunction r d b \<Rightarrow> d | BoundHandle p \<Rightarrow> False)"

text \<open>The argument list that \<open>Handler.__call__\<close> assembles.\<close>

definition Handler_args :: "'w handler \<Rightarrow> pyval \<Rightarrow> pid \<Rightarrow> node_obj \<Rightarrow> arg list" where
  "Handler_args self previous_value protocol node =
     (if h_pass_protocol self then [AProtocol protocol] else [])
     @ [ANode node]
     @ (if Handler_is_responder self then [AClass (h_responder_cls self)] else [])
     @ (if Handler_is_reducer self then [AValue previous_value] else [])"

text \<open>
  \<open>heapq.heappush\<close> of the standard library, as CPython's heapq.py defines it: the
  item is appended and sifted towards the root while it is less than its parent.
\<close>

function siftdown :: "('a \<Rightarrow> 'a \<Rightarrow> bool) \<Rightarrow> 'a list \<Rightarrow> 'a \<Rightarrow> nat \<Rightarrow> nat \<Rightarrow> 'a list" where
  "siftdown lt heap newitem startpos pos =
     (if pos > startpos
      then (let parentpos = (pos - 1) div 2; parent = heap ! parentpos
            in if lt newitem parent
               then siftdown lt (heap[pos := parent]) newitem startpos parentpos
               else heap[pos := newitem])
      else heap[pos := newitem])"
  by pat_completeness auto
termination
  by (relation "measure (\<lambda>(lt, heap, newitem, startpos, pos). pos)") auto

declare siftdown.simps [simp del]

definition heappush :: "('a \<Rightarrow> 'a \<Rightarrow> bool) \<Rightarrow> 'a list \<Rightarrow> 'a \<Rightarrow> 'a list" where
  "heappush lt heap item = siftdown lt (heap @ [item]) item 0 (length heap)"

text \<open>
  The heap property of a list under a key (no item is less than its parent), the invariant
  of the sifting loop (the property holds but for the item at \<open>pos\<close>, which is to be
  replaced by \<open>x\<close>), and the key by which \<open>Handler.__lt__\<close> compares.
\<close>

definition heap_ok :: "('a \<Rightarrow> int) \<Rightarrow> 'a list \<Rightarrow> bool" where
  "heap_ok key h = (\<forall>i. 0 < i \<and> i < length h \<longrightarrow> key (h ! ((i - 1) div 2)) \<le> key (h ! i))"

definition sift_inv :: "('a \<Rightarrow> int) \<Rightarrow> 'a list \<Rightarrow> 'a \<Rightarrow> nat \<Rightarrow> bool" where
  "sift_inv key h x pos =
     (pos < length h
      \<and> (\<forall>i. 0 < i \<and> i < length h \<and> i \<noteq> pos \<and> (i - 1) div 2 \<noteq> pos
             \<longrightarrow> key (h ! ((i - 1) div 2)) \<le> key (h ! i))
      \<and> (\<forall>c. 0 < c \<and> c < length h \<and> (c - 1) div 2 = pos
             \<longrightarrow> key x \<le> key (h ! c) \<and> (0 < pos \<longrightarrow> key (h ! ((pos - 1) div 2)) \<le> key (h ! c))))"

definition handler_key :: "'w handler \<Rightarrow> int" where
  "handler_key h = - status_value (h_status h)"

section \<open>Protocol classes, instances and the state of the program\<close>

text \<open>
  The class attributes of a Protocol subclass (\<open>__init_subclass__\<close> gives each its own):
  \<open>_registry\<close>, \<open>_handlers\<close> (by node class, then by condition, a list of dicts) and
  \<open>_children\<close>. Dictionaries are lists of pairs in insertion order.
\<close>

type_synonym 'w groups = "(cond option \<times> 'w case_dict list) list"

record 'w pclass =
  p_registry :: "(node_key \<times> cond option) list"
  p_handlers :: "(node_key \<times> 'w groups) list"
  p_children :: "pcname list"

text \<open>
  The attributes of a Protocol instance. \<open>_aborted\<close> does not exist until it is first
  assigned.
\<close>

record protocol_obj =
  i_cls :: pcname
  i_protocol :: "pid option"
  i_config :: config
  i_children :: "(pcname \<times> pid) list"
  i_registry :: "node_key list"
  i_aborted :: "bool option"

text \<open>
  The state: the Node classes, the contents of the registry objects, the Protocol classes,
  the Protocol instances with the next free identity, what was written to
  \<open>sys.stderr\<close> (the message and the exception whose traceback follows it), and the state
  the handler functions act on.
\<close>

record 'w system =
  node_classes :: class_env
  registries :: "cname \<Rightarrow> pid set"
  pclasses :: "pcname \<Rightarrow> 'w pclass"
  instances :: "pid \<Rightarrow> protocol_obj"
  next_pid :: pid
  stderr :: "(string \<times> error) list"
  world :: 'w

text \<open>
  \<open>Node.on_register(protocol_cls, add_protocol)\<close> as \<open>configure\<close> calls it. The
  object \<open>ALL_NODES\<close> has no attribute \<open>on_register\<close>.
\<close>

definition Node_on_register :: "'w system \<Rightarrow> cname \<Rightarrow> pid \<Rightarrow> bool \<Rightarrow> 'w system" where
  "Node_on_register s c protocol add_protocol =
     (let r = registry_ref (node_classes s c)
      in s\<lparr>registries := (registries s)
             (r := (if add_protocol then insert protocol (registries s r)
                    else registries s r - {protocol}))\<rparr>)"

definition on_register :: "'w system \<Rightarrow> node_key \<Rightarrow> pid \<Rightarrow> bool \<Rightarrow> error + 'w system" where
  "on_register s k protocol add_protocol =
     (case k of
        ALL_NODES \<Rightarrow> Inl (AttributeError ''on_register'')
      | NodeCls c \<Rightarrow> Inr (Node_on_register s c protocol add_protocol))"

definition cond_check :: "cond option \<Rightarrow> config \<Rightarrow> node_obj option \<Rightarrow> bool" where
  "cond_check condition cfg node =
     (case condition of None \<Rightarrow> True | Some c \<Rightarrow> check c cfg node)"

text \<open>
  The first loop of \<open>Protocol.configure\<close>, over \<open>self._registry.items()\<close>.
\<close>

fun configure_registry :: "pid \<Rightarrow> (node_key \<times> cond option) list \<Rightarrow> 'w system \<Rightarrow> (error + unit) \<times> 'w system" where
  "configure_registry self [] s = (Inr (), s)"
| "configure_registry self ((k, condition) # rest) s =
     (let abort_on_check_failure = (k = ALL_NODES);
          chk = cond_check condition (i_config (instances s self)) None
      in case on_register s k self chk of
           Inl e \<Rightarrow> (Inl e, s)
         | Inr s1 \<Rightarrow>
             if chk then configure_registry self rest s1
             else if abort_on_check_failure
                  then (Inr (), s1\<lparr>instances := (instances s1)
                                  (self := (instances s1 self)\<lparr>i_aborted := Some True\<rparr>)\<rparr>)
                  else configure_registry self rest s1)"

text \<open>
  The second loop, over \<open>self._children\<close>. \<open>child_cls(self, **self._config)\<close> passes
  \<open>self\<close> as the parameter \<open>protocol\<close>, so a configuration key of that name is a
  TypeError. The constructor is a parameter here: it is \<open>Protocol.__init__\<close>, defined
  below.
\<close>

fun configure_children ::
  "(pcname \<Rightarrow> pid option \<Rightarrow> config \<Rightarrow> 'w system \<Rightarrow> (error + pid) \<times> 'w system)
   \<Rightarrow> pid \<Rightarrow> pcname list \<Rightarrow> 'w system \<Rightarrow> (error + unit) \<times> 'w system" where
  "configure_children new self [] s = (Inr (), s)"
| "configure_children new self (child_cls # rest) s =
     (if child_cls \<in> fst ` set (i_children (instances s self))
      then configure_children new self rest s
      else if ''protocol'' \<in> dom (i_config (instances s self))
      then (Inl (TypeError ''got multiple values for argument protocol''), s)
      else (case new child_cls (Some self) (i_config (instances s self)) s of
              (Inl e, s1) \<Rightarrow> (Inl e, s1)
            | (Inr child, s1) \<Rightarrow>
                configure_children new self rest
                  (s1\<lparr>instances := (instances s1)
                        (self := (instances s1 self)
                           \<lparr>i_children := dict_set (i_children (instances s1 self)) child_cls child\<rparr>)\<rparr>)))"

definition Protocol_configure ::
  "(pcname \<Rightarrow> pid option \<Rightarrow> config \<Rightarrow> 'w system \<Rightarrow> (error + pid) \<times> 'w system)
   \<Rightarrow> pid \<Rightarrow> config \<Rightarrow> 'w system \<Rightarrow> (error + unit) \<times> 'w system" where
  "Protocol_configure new self cfg s =
     (let s1 = s\<lparr>instances := (instances s)
                  (self := (instances s self)\<lparr>i_config := i_config (instances s self) ++ cfg\<rparr>)\<rparr>
      in case configure_registry self (p_registry (pclasses s1 (i_cls (instances s1 self)))) s1 of
           (Inl e, s2) \<Rightarrow> (Inl e, s2)
         | (Inr u, s2) \<Rightarrow>
             (case configure_children new self (p_children (pclasses s2 (i_cls (instances s2 self)))) s2 of
                (Inl e, s3) \<Rightarrow> (Inl e, s3)
              | (Inr u, s3) \<Rightarrow>
                  (Inr (), s3\<lparr>instances := (instances s3)
                                (self := (instances s3 self)\<lparr>i_registry := []\<rparr>)\<rparr>)))"

text \<open>
  \<open>Protocol.__init__(protocol, **config)\<close>: a new instance is allocated and initialised.
  The first argument bounds the nesting of constructor calls (a child is constructed inside
  \<open>configure\<close>), as the recursion limit does.
\<close>

fun Protocol_init :: "nat \<Rightarrow> pcname \<Rightarrow> pid option \<Rightarrow> config \<Rightarrow> 'w system \<Rightarrow> (error + pid) \<times> 'w system" where
  "Protocol_init 0 cls protocol cfg s = (Inl RecursionError, s)"
| "Protocol_init (Suc depth) cls protocol cfg s =
     (let self = next_pid s;
          s1 = s\<lparr>next_pid := Suc self,
                 instances := (instances s)
                   (self := \<lparr>i_cls = cls, i_protocol = protocol, i_config = Map.empty,
                             i_children = [], i_registry = [], i_aborted = None\<rparr>)\<rparr>
      in case Protocol_configure (Protocol_init depth) self cfg s1 of
           (Inl e, s2) \<Rightarrow> (Inl e, s2)
         | (Inr u, s2) \<Rightarrow>
             (Inr self, s2\<lparr>instances := (instances s2)
                             (self := (instances s2 self)\<lparr>i_aborted := Some False\<rparr>)\<rparr>))"

section \<open>Registration\<close>

text \<open>
  \<open>Protocol.register(registered, condition)\<close> with a registrar given.
  \<open>issubclass(registered, Node)\<close> raises TypeError for \<open>ALL_NODES\<close>, which is not a class.
  An \<open>If\<close> object is always true as a truth value.
\<close>

definition Protocol_register :: "pcname \<Rightarrow> node_key \<Rightarrow> cond option \<Rightarrow> 'w system \<Rightarrow> (error + node_key) \<times> 'w system" where
  "Protocol_register cls registered condition s =
     (case registered of
        ALL_NODES \<Rightarrow> (Inl (TypeError ''issubclass() arg 1 must be a class''), s)
      | NodeCls c \<Rightarrow>
          (if (case condition of None \<Rightarrow> False | Some cnd \<Rightarrow> checks_node cnd)
           then (Inl (ValueError ''cannot check node schema in protocol registry filter''), s)
           else (Inr registered,
                 s\<lparr>pclasses := (pclasses s)
                     (cls := (pclasses s cls)
                        \<lparr>p_registry := dict_set (p_registry (pclasses s cls)) registered condition\<rparr>)\<rparr>)))"

text \<open>
  \<open>isinstance(node, Tree)\<close> in \<open>register_tree\<close>, where \<open>node\<close> is a value of the table
  \<open>tree.nodes\<close>: a class. A class object is an instance of its metaclass and of
  \<open>object\<close>, never of \<open>Tree\<close>, whether or not it is a subclass of \<open>Tree\<close>.
\<close>

definition isinstance_Tree :: "class_env \<Rightarrow> cname \<Rightarrow> bool" where
  "isinstance_Tree env node = False"

text \<open>
  The loop of \<open>register_tree\<close> over \<open>tree.nodes.values()\<close>; \<open>again\<close> is the recursive
  call \<open>cls.register_tree(tree, recursive=recursive, condition=condition)\<close>, whose result is
  dropped.
\<close>

fun register_tree_loop ::
  "('w system \<Rightarrow> (error + node_key list) \<times> 'w system)
   \<Rightarrow> pcname \<Rightarrow> cname list \<Rightarrow> bool \<Rightarrow> cond option \<Rightarrow> node_key list \<Rightarrow> 'w system
   \<Rightarrow> (error + node_key list) \<times> 'w system" where
  "register_tree_loop again cls [] recursive condition done s = (Inr done, s)"
| "register_tree_loop again cls (node # rest) recursive condition done s =
     (case (if recursive \<and> isinstance_Tree (node_classes s) node \<and> nodes (node_classes s node) \<noteq> []
            then again s else (Inr [], s)) of
        (Inl e, s1) \<Rightarrow> (Inl e, s1)
      | (Inr u, s1) \<Rightarrow>
          (case Protocol_register cls (NodeCls node) condition s1 of
             (Inl e, s2) \<Rightarrow> (Inl e, s2)
           | (Inr r, s2) \<Rightarrow> register_tree_loop again cls rest recursive condition (done @ [r]) s2))"

fun Protocol_register_tree :: "nat \<Rightarrow> pcname \<Rightarrow> cname \<Rightarrow> bool \<Rightarrow> cond option \<Rightarrow> 'w system \<Rightarrow> (error + node_key list) \<times> 'w system" where
  "Protocol_register_tree 0 cls tree recursive condition s = (Inl RecursionError, s)"
| "Protocol_register_tree (Suc depth) cls tree recursive condition s =
     register_tree_loop (Protocol_register_tree depth cls tree recursive condition)
       cls (map snd (nodes (node_classes s tree))) recursive condition [] s"

text \<open>
  \<open>Protocol.register_handler\<close>:
  \<open>_handlers.setdefault(node_cls, {}).setdefault(condition, []).append(dict(...))\<close>.
  Two conditions are the same dictionary key when both are \<open>None\<close> or they are the same
  object.
\<close>

definition same_cond :: "cond option \<Rightarrow> cond option \<Rightarrow> bool" where
  "same_cond a b = (map_option cond_id a = map_option cond_id b)"

fun groups_append :: "'w groups \<Rightarrow> cond option \<Rightarrow> 'w case_dict \<Rightarrow> 'w groups" where
  "groups_append [] condition cd = [(condition, [cd])]"
| "groups_append ((c, cases) # gs) condition cd =
     (if same_cond c condition then (c, cases @ [cd]) # gs
      else (c, cases) # groups_append gs condition cd)"

definition table_get :: "(node_key \<times> 'w groups) list \<Rightarrow> node_key \<Rightarrow> 'w groups" where
  "table_get tbl k = (case map_of tbl k of None \<Rightarrow> [] | Some g \<Rightarrow> g)"

definition Protocol_register_handler ::
  "pcname \<Rightarrow> 'w func \<Rightarrow> node_key \<Rightarrow> node_key option \<Rightarrow> Status \<Rightarrow> cond option \<Rightarrow> bool
   \<Rightarrow> 'w system \<Rightarrow> (error + unit) \<times> 'w system" where
  "Protocol_register_handler cls f ncls responder_cls status condition pass_protocol s =
     (if responder_cls = Some ALL_NODES
      then (Inl (ValueError ''cannot establish relation to all node types''), s)
      else (Inr (),
            s\<lparr>pclasses := (pclasses s)
                (cls := (pclasses s cls)
                   \<lparr>p_handlers :=
                      dict_set (p_handlers (pclasses s cls)) ncls
                        (groups_append (table_get (p_handlers (pclasses s cls)) ncls) condition
                           \<lparr>c_function = Some f, c_responder_cls = responder_cls,
                            c_status = status, c_pass_protocol = pass_protocol\<rparr>)\<rparr>)\<rparr>))"

section \<open>Dispatch\<close>

text \<open>
  The body of the innermost loop of \<open>Protocol.handle\<close> for one stored dict \<open>case\<close>: the
  dict as the loop leaves it, and the Handler built from it. \<open>case.pop('function')\<close> raises
  KeyError when the key is gone, and \<open>self.children[function]\<close> when the class is not a key
  (the popped entry is then not put back).
\<close>

definition handle_case :: "(pcname \<times> pid) list \<Rightarrow> 'w case_dict \<Rightarrow> (error + 'w handler) \<times> 'w case_dict" where
  "handle_case children cd =
     (case c_function cd of
        None \<Rightarrow> (Inl (KeyError (PStr ''function'')), cd)
      | Some (Call f) \<Rightarrow>
          (Inr \<lparr>h_function = f, h_responder_cls = c_responder_cls cd,
                h_status = c_status cd, h_pass_protocol = c_pass_protocol cd\<rparr>, cd)
      | Some (ProtocolType c) \<Rightarrow>
          (case map_of children c of
             None \<Rightarrow> (Inl (KeyError (PStr c)), cd\<lparr>c_function := None\<rparr>)
           | Some child \<Rightarrow>
               (Inr \<lparr>h_function = BoundHandle child, h_responder_cls = c_responder_cls cd,
                     h_status = c_status cd, h_pass_protocol = False\<rparr>,
                cd\<lparr>c_function := Some (Call (BoundHandle child)), c_pass_protocol := False\<rparr>)))"

fun handle_cases :: "(pcname \<times> pid) list \<Rightarrow> 'w case_dict list \<Rightarrow> 'w handler list \<Rightarrow> (error + 'w handler list) \<times> 'w case_dict list" where
  "handle_cases children [] handlers = (Inr handlers, [])"
| "handle_cases children (cd # cds) handlers =
     (case handle_case children cd of
        (Inl e, cd1) \<Rightarrow> (Inl e, cd1 # cds)
      | (Inr h, cd1) \<Rightarrow>
          (case handle_cases children cds (heappush Handler_lt handlers h) of
             (r, cds1) \<Rightarrow> (r, cd1 # cds1)))"

text \<open>The loop over \<open>conditional_cases.items()\<close>, each condition checked against the node.\<close>

fun handle_groups :: "config \<Rightarrow> node_obj \<Rightarrow> (pcname \<times> pid) list \<Rightarrow> 'w groups \<Rightarrow> 'w handler list \<Rightarrow> (error + 'w handler list) \<times> 'w groups" where
  "handle_groups cfg node children [] handlers = (Inr handlers, [])"
| "handle_groups cfg node children ((condition, cases) # gs) handlers =
     (if cond_check condition cfg (Some node)
      then (case handle_cases children cases handlers of
              (Inl e, cases1) \<Rightarrow> (Inl e, (condition, cases1) # gs)
            | (Inr handlers1, cases1) \<Rightarrow>
                (case handle_groups cfg node children gs handlers1 of
                   (r, gs1) \<Rightarrow> (r, (condition, cases1) # gs1)))
      else (case handle_groups cfg node children gs handlers of
              (r, gs1) \<Rightarrow> (r, (condition, cases) # gs1)))"

text \<open>
  The stored dicts are changed in place, so the table of the class is written back; a key
  the table does not have (the default \<open>{}\<close> of \<open>get\<close>) stays absent.
\<close>

definition table_put :: "(node_key \<times> 'w groups) list \<Rightarrow> node_key \<Rightarrow> 'w groups \<Rightarrow> (node_key \<times> 'w groups) list" where
  "table_put tbl k g = map (\<lambda>(k', g'). if k' = k then (k', g) else (k', g')) tbl"

text \<open>
  The outer loop over the groups of \<open>type(node)\<close> and then of \<open>ALL_NODES\<close>: the heap
  of handlers and the table as the loops leave it.
\<close>

definition handle_collect :: "config \<Rightarrow> node_obj \<Rightarrow> (pcname \<times> pid) list \<Rightarrow> (node_key \<times> 'w groups) list \<Rightarrow> (error + 'w handler list) \<times> (node_key \<times> 'w groups) list" where
  "handle_collect cfg node children tbl =
     (case handle_groups cfg node children (table_get tbl (NodeCls (node_cls node))) [] of
        (Inl e, g1) \<Rightarrow> (Inl e, table_put tbl (NodeCls (node_cls node)) g1)
      | (Inr handlers1, g1) \<Rightarrow>
          (let tbl1 = table_put tbl (NodeCls (node_cls node)) g1
           in case handle_groups cfg node children (table_get tbl1 ALL_NODES) handlers1 of
                (r, g2) \<Rightarrow> (r, table_put tbl1 ALL_NODES g2)))"

text \<open>
  \<open>self.function(*args)\<close>. A Python function runs its body on the outside state. The
  bound method \<open>handle\<close> of a child takes the node and nothing else; \<open>child_handle\<close>
  is \<open>Protocol.handle\<close>, defined below.
\<close>

definition call_function ::
  "(pid \<Rightarrow> node_obj \<Rightarrow> 'w system \<Rightarrow> (error + pyval) \<times> 'w system)
   \<Rightarrow> 'w callable \<Rightarrow> arg list \<Rightarrow> 'w system \<Rightarrow> (error + pyval) \<times> 'w system" where
  "call_function child_handle f args s =
     (case f of
        PyFunction r d b \<Rightarrow> (case b args (world s) of (res, w) \<Rightarrow> (res, s\<lparr>world := w\<rparr>))
      | BoundHandle child \<Rightarrow>
          (case args of
             [ANode n] \<Rightarrow> child_handle child n s
           | _ \<Rightarrow> (Inl (TypeError ''handle() takes 2 positional arguments''), s)))"

definition Handler_call ::
  "(pid \<Rightarrow> node_obj \<Rightarrow> 'w system \<Rightarrow> (error + pyval) \<times> 'w system)
   \<Rightarrow> 'w handler \<Rightarrow> pyval \<Rightarrow> pid \<Rightarrow> node_obj \<Rightarrow> 'w system \<Rightarrow> (error + pyval) \<times> 'w system" where
  "Handler_call child_handle self previous_value protocol node s =
     call_function child_handle (h_function self) (Handler_args self previous_value protocol node) s"

text \<open>
  \<open>Protocol.on_error(node)\<close> with its defaults: a Node instance is true as a truth value,
  so the message names the node's class; the traceback of the exception follows.
\<close>

definition Protocol_on_error :: "pid \<Rightarrow> node_obj \<Rightarrow> error \<Rightarrow> 'w system \<Rightarrow> 'w system" where
  "Protocol_on_error self node e s =
     s\<lparr>stderr := stderr s @
         [(''FATAL: exception caught during handling '' @ node_cls node @ '' node.'', e)]\<rparr>"

text \<open>\<open>Protocol.call_handler\<close>: \<open>except Exception\<close> catches what \<open>is_Exception\<close> holds of.\<close>

definition Protocol_call_handler ::
  "(pid \<Rightarrow> node_obj \<Rightarrow> 'w system \<Rightarrow> (error + pyval) \<times> 'w system)
   \<Rightarrow> pid \<Rightarrow> pyval \<Rightarrow> 'w handler \<Rightarrow> node_obj \<Rightarrow> 'w system \<Rightarrow> (error + pyval) \<times> 'w system" where
  "Protocol_call_handler child_handle self val h node s =
     (case Handler_call child_handle h val self node s of
        (Inr new_value, s1) \<Rightarrow> (Inr new_value, s1)
      | (Inl e, s1) \<Rightarrow>
          (if is_Exception e then (Inr val, Protocol_on_error self node e s1)
           else (Inl e, s1)))"

text \<open>
  The loop of \<open>Protocol.call_handlers\<close> from a given value of the variable \<open>value\<close>;
  its result is the last value. \<open>call_handlers\<close> starts it at \<open>None\<close> and returns
  \<open>None\<close>.
\<close>

fun call_handlers_loop ::
  "(pid \<Rightarrow> node_obj \<Rightarrow> 'w system \<Rightarrow> (error + pyval) \<times> 'w system)
   \<Rightarrow> pid \<Rightarrow> node_obj \<Rightarrow> pyval \<Rightarrow> 'w handler list \<Rightarrow> 'w system \<Rightarrow> (error + pyval) \<times> 'w system" where
  "call_handlers_loop child_handle self node val [] s = (Inr val, s)"
| "call_handlers_loop child_handle self node val (h # hs) s =
     (case Protocol_call_handler child_handle self val h node s of
        (Inl e, s1) \<Rightarrow> (Inl e, s1)
      | (Inr new_value, s1) \<Rightarrow> call_handlers_loop child_handle self node new_value hs s1)"

definition Protocol_call_handlers ::
  "(pid \<Rightarrow> node_obj \<Rightarrow> 'w system \<Rightarrow> (error + pyval) \<times> 'w system)
   \<Rightarrow> pid \<Rightarrow> node_obj \<Rightarrow> 'w handler list \<Rightarrow> 'w system \<Rightarrow> (error + pyval) \<times> 'w system" where
  "Protocol_call_handlers child_handle self node handlers s =
     (case call_handlers_loop child_handle self node PNone handlers s of
        (Inl e, s1) \<Rightarrow> (Inl e, s1)
      | (Inr v, s1) \<Rightarrow> (Inr PNone, s1))"

definition Protocol_on_unknown_case :: "pid \<Rightarrow> node_obj \<Rightarrow> 'w system \<Rightarrow> (error + pyval) \<times> 'w system" where
  "Protocol_on_unknown_case self node s = (Inr PNone, s)"

text \<open>
  \<open>Protocol.handle(node)\<close>. The first argument bounds the nesting of \<open>handle\<close> calls
  (a handler can be the \<open>handle\<close> of a child), as the recursion limit does.
\<close>

fun Protocol_handle :: "nat \<Rightarrow> pid \<Rightarrow> node_obj \<Rightarrow> 'w system \<Rightarrow> (error + pyval) \<times> 'w system" where
  "Protocol_handle 0 self node s = (Inl RecursionError, s)"
| "Protocol_handle (Suc depth) self node s =
     (case i_aborted (instances s self) of
        None \<Rightarrow> (Inl (AttributeError ''_aborted''), s)
      | Some True \<Rightarrow> (Inr PNone, s)
      | Some False \<Rightarrow>
          (if self \<notin> registries s (registry_ref (node_classes s (node_cls node)))
           then Protocol_on_unknown_case self node s
           else
             (case handle_collect (i_config (instances s self)) node (i_children (instances s self))
                     (p_handlers (pclasses s (i_cls (instances s self)))) of
                (r, tbl) \<Rightarrow>
                  (let s1 = s\<lparr>pclasses := (pclasses s)
                              (i_cls (instances s self) :=
                                 (pclasses s (i_cls (instances s self)))\<lparr>p_handlers := tbl\<rparr>)\<rparr>
                   in case r of
                        Inl e \<Rightarrow> (Inl e, s1)
                      | Inr handlers \<Rightarrow>
                          Protocol_call_handlers (Protocol_handle depth) self node handlers s1))))"

text \<open>
  \<open>Protocol.__init_subclass__(extends)\<close>: the new class gets empty tables of its own; with
  \<open>extends\<close> it copies that class's registry and is appended to its \<open>_children\<close>. (The
  scan for functions decorated with \<open>handles\<close> is the caller's \<open>register_handler\<close>
  calls.)
\<close>

definition Protocol_init_subclass :: "pcname \<Rightarrow> pcname option \<Rightarrow> 'w system \<Rightarrow> 'w system" where
  "Protocol_init_subclass cls extends s =
     (case extends of
        None \<Rightarrow>
          s\<lparr>pclasses := (pclasses s)(cls := \<lparr>p_registry = [], p_handlers = [], p_children = []\<rparr>)\<rparr>
      | Some base \<Rightarrow>
          s\<lparr>pclasses := (pclasses s)
              (cls := \<lparr>p_registry = p_registry (pclasses s base), p_handlers = [], p_children = []\<rparr>,
               base := (pclasses s base)\<lparr>p_children := p_children (pclasses s base) @ [cls]\<rparr>)\<rparr>)"

section \<open>The classes of src/snss/protocol.py and small programs over the library\<close>

text \<open>
  A direct subclass of \<open>Tree\<close> that overrides nothing but the abstract methods: the class
  attributes are those of \<open>Tree\<close> (\<open>case_key = data_key = default_node = None\<close>,
  \<open>has_switch = True\<close>), \<open>update\<close> is \<open>Node.update\<close>, \<open>nodes\<close> is empty and the
  registry is the new object made for the class.
\<close>

definition Tree_subclass :: "cname \<Rightarrow> node_class" where
  "Tree_subclass name =
     \<lparr>is_tree = True, case_key = None, data_key = None, default_node = None, has_switch = True,
      nodes = [], switch_spec = None, registry_ref = name, update_method = Node_update\<rparr>"

text \<open>
  \<open>Command\<close>, and a subclass of \<open>Command\<close> that overrides nothing but the schema
  \<open>manager\<close>: a subclass of \<open>Tree\<close> whose \<open>update\<close> is \<open>Command.update\<close>.
\<close>

definition Command_subclass :: "cname \<Rightarrow> node_class" where
  "Command_subclass name = (Tree_subclass name)\<lparr>update_method := Command_update\<rparr>"

text \<open>
  The applications of \<open>SessionCommands.case\<close> in src/snss/protocol.py, in the order in
  which the module makes them (stacked decorators are applied from the bottom one up).
\<close>

definition session_cases :: "(int \<times> cname) list" where
  "session_cases =
     [(6, ''UpdateTabNavigation''),
      (12, ''IDAndIndex''), (9, ''IDAndIndex''), (8, ''IDAndIndex''), (7, ''IDAndIndex''),
      (5, ''IDAndIndex''), (2, ''IDAndIndex''), (0, ''IDAndIndex''),
      (14, ''SetWindowBounds3''), (16, ''TabClosed''), (17, ''WindowClosed''),
      (19, ''SessionStorageAssociated''), (20, ''SetActiveWindow''), (21, ''LastActiveTime''),
      (23, ''SetWindowWorkspace'')]"

text \<open>
  The Node classes of src/snss/protocol.py: every class is \<open>Command\<close> or a subclass of it
  that overrides the schema only, but \<open>TabCommands\<close> (\<open>default_node = Command\<close>) and
  \<open>SessionCommands\<close> (\<open>default_node = Command\<close>, \<open>case_key = 'type'\<close>,
  \<open>data_key = 'buffer'\<close>); then the cases are registered.
\<close>

definition command_env :: class_env where
  "command_env = (\<lambda>c. Command_subclass c)"

definition repo_classes :: class_env where
  "repo_classes =
     foldl (\<lambda>env (v, c). Tree_case env ''SessionCommands'' (PInt v) c)
       (command_env
          (''TabCommands'' := (Command_subclass ''TabCommands'')\<lparr>default_node := Some ''Command''\<rparr>,
           ''SessionCommands'' :=
             (Command_subclass ''SessionCommands'')
               \<lparr>case_key := Some ''type'', data_key := Some ''buffer'',
                default_node := Some ''Command''\<rparr>))
       session_cases"

text \<open>A \<open>SessionCommands\<close> record whose tag 99 is not in the table.\<close>

definition unknown_command :: node_obj where
  "unknown_command =
     Node_init ''SessionCommands''
       [Some ''size'' \<mapsto> PInt 0, Some ''type'' \<mapsto> PInt 99, Some ''buffer'' \<mapsto> PBytes []]"

text \<open>A Command with a cached encoding.\<close>

definition cached_command :: node_obj where
  "cached_command =
     \<lparr>node_cls = ''Command'', node_data = [Some ''buffer'' \<mapsto> PBytes [1, 2]],
      node_buffer = PBytes [1, 2], node_origin = PBytes [1, 2]\<rparr>"

text \<open>
  A program over the library, with methods that need no schema library:
  \<^verbatim>\<open>
  class Raw(Tree):
      manager = None
      def _dump(self, context=None): return self._data['buffer']
      def _read(self, buffer, context=None): return {'buffer': buffer}
  class Outer(Raw): case_key = 'type'
  class Inner(Raw): case_key = 'kind'
  class Leaf(Raw): pass
  Inner.case(2)(Leaf)
  Outer.case(1)(Inner)
  \<close>
  \<open>raw_codecs\<close> gives every class the two methods of \<open>Raw\<close>; in \<open>nested_classes\<close> every
  other name is a further subclass of \<open>Raw\<close> that overrides nothing.
\<close>

definition Raw_dump :: "fields \<Rightarrow> pyval \<Rightarrow> error + pyval" where
  "Raw_dump d context =
     (case d (Some ''buffer'') of None \<Rightarrow> Inl (KeyError (PStr ''buffer'')) | Some v \<Rightarrow> Inr v)"

definition Raw_read :: "pyval \<Rightarrow> pyval \<Rightarrow> error + fields option" where
  "Raw_read buf context = Inr (Some [Some ''buffer'' \<mapsto> buf])"

definition raw_codecs :: codecs where
  "raw_codecs = (\<lambda>c. \<lparr>dump_codec = Raw_dump, read_codec = Raw_read\<rparr>)"

definition nested_classes :: class_env where
  "nested_classes =
     Tree_case
       (Tree_case
          ((\<lambda>c. Tree_subclass c)
             (''Outer'' := (Tree_subclass ''Outer'')\<lparr>case_key := Some ''type''\<rparr>,
              ''Inner'' := (Tree_subclass ''Inner'')\<lparr>case_key := Some ''kind''\<rparr>))
          ''Inner'' (PInt 2) ''Leaf'')
       ''Outer'' (PInt 1) ''Inner''"

text \<open>A \<open>Raw\<close> record with a cached encoding.\<close>

definition cached_raw :: node_obj where
  "cached_raw =
     \<lparr>node_cls = ''Raw'', node_data = [Some ''buffer'' \<mapsto> PBytes [1, 2]],
      node_buffer = PBytes [1, 2], node_origin = PBytes [1, 2]\<rparr>"

text \<open>
  The state before any Protocol subclass is defined or instantiated, over given Node
  classes and a given outside state.
\<close>

definition initial_system :: "class_env \<Rightarrow> 'w \<Rightarrow> 'w system" where
  "initial_system env w =
     \<lparr>node_classes = env, registries = (\<lambda>r. {}),
      pclasses = (\<lambda>c. \<lparr>p_registry = [], p_handlers = [], p_children = []\<rparr>),
      instances = (\<lambda>p. \<lparr>i_cls = [], i_protocol = None, i_config = Map.empty, i_children = [],
                            i_registry = [], i_aborted = None\<rparr>),
      next_pid = 0, stderr = [], world = w\<rparr>"

text \<open>Handler functions for the programs below; the outside state is a log.\<close>

definition logger :: "string \<Rightarrow> string list callable" where
  "logger name = PyFunction False False (\<lambda>args w. (Inr PNone, w @ [name]))"

definition raiser :: "string \<Rightarrow> error \<Rightarrow> string list callable" where
  "raiser name e = PyFunction False False (\<lambda>args w. (Inl e, w @ [name]))"

fun status_name :: "Status \<Rightarrow> string" where
  "status_name DAEMON = ''DAEMON''"
| "status_name NORMAL = ''NORMAL''"
| "status_name IMPORTANT = ''IMPORTANT''"
| "status_name URGENT = ''URGENT''"

definition returns_one :: "string list callable" where
  "returns_one = PyFunction False False (\<lambda>args w. (Inr (PInt 1), w @ [''returns 1'']))"

text \<open>A function tagged with \<open>is_reducer\<close> that logs whether the value it is passed is 1.\<close>

definition shows_value :: "string list callable" where
  "shows_value =
     PyFunction False True
       (\<lambda>args w. case args of
                    [ANode n, AValue (PInt i)] \<Rightarrow>
                      (Inr (PInt (i + 1)), w @ [if i = 1 then ''got 1'' else ''got another int''])
                  | _ \<Rightarrow> (Inr PNone, w @ [''got no int'']))"

definition as_handler :: "'w callable \<Rightarrow> 'w handler" where
  "as_handler f = \<lparr>h_function = f, h_responder_cls = None, h_status = NORMAL, h_pass_protocol = False\<rparr>"

text \<open>A protocol class \<open>P\<close>, defined with no \<open>extends\<close>, that registers \<open>Command\<close>.\<close>

definition command_system :: "string list system" where
  "command_system =
     snd (Protocol_register ''P'' (NodeCls ''Command'') None
            (Protocol_init_subclass ''P'' None (initial_system command_env [])))"

text \<open>
  \<open>P\<close> then registers one handler per given status, in the given order, each logging
  the name of its status; the first instance of \<open>P\<close> (its identity is 0) is made and
  handles one \<open>Command\<close> node. The result is the log: the order in which the handlers ran.
\<close>

fun register_loggers :: "Status list \<Rightarrow> string list system \<Rightarrow> string list system" where
  "register_loggers [] s = s"
| "register_loggers (st # sts) s =
     register_loggers sts
       (snd (Protocol_register_handler ''P'' (Call (logger (status_name st)))
               (NodeCls ''Command'') None st None True s))"

definition dispatch_order :: "Status list \<Rightarrow> string list" where
  "dispatch_order sts =
     world (snd (Protocol_handle 2 0 (Node_init ''Command'' Map.empty)
                   (snd (Protocol_init 2 ''P'' None Map.empty (register_loggers sts command_system)))))"

text \<open>
  An instance of \<open>P\<close> with one handler, after which the wildcard is entered in the
  registry of \<open>P\<close> with a guard that is false (\<open>register\<close> refuses \<open>ALL_NODES\<close>, so the
  entry is written to \<open>_registry\<close> directly).
\<close>

definition never :: cond where
  "never = \<lparr>cond_id = 0, check = (\<lambda>cfg node. False), checks_node = False\<rparr>"

definition wildcard_system :: "string list system" where
  "wildcard_system =
     (snd (Protocol_init 1 ''P'' None Map.empty (register_loggers [NORMAL] command_system)))
       \<lparr>pclasses :=
          (pclasses (snd (Protocol_init 1 ''P'' None Map.empty (register_loggers [NORMAL] command_system))))
            (''P'' := \<lparr>p_registry = [(ALL_NODES, Some never), (NodeCls ''Command'', None)],
                      p_handlers = p_handlers (pclasses (register_loggers [NORMAL] command_system) ''P''),
                      p_children = []\<rparr>)\<rparr>"


text \<open>A protocol class over the trees \<open>Outer\<close>, \<open>Inner\<close> and \<open>Leaf\<close>.\<close>

definition nested_system :: "string list system" where
  "nested_system = Protocol_init_subclass ''P'' None (initial_system nested_classes [])"

text \<open>
  A protocol class \<open>P\<close> and a class \<open>C\<close> defined with \<open>extends=P\<close>; both register
  \<open>Command\<close>. \<open>P\<close> registers the class \<open>C\<close> as the handler of \<open>Command\<close>, and \<open>C\<close> a
  function that logs the identity of the protocol it is passed. Two instances of \<open>P\<close> are
  made: the instance 0 with its child 1, and the instance 2 with its child 3.
\<close>

definition who_runs :: "nat list callable" where
  "who_runs =
     PyFunction False False
       (\<lambda>args w. case args of AProtocol p # rest \<Rightarrow> (Inr PNone, w @ [p]) | _ \<Rightarrow> (Inr PNone, w))"

definition delegating_classes :: "nat list system" where
  "delegating_classes =
     snd (Protocol_register_handler ''C'' (Call who_runs) (NodeCls ''Command'') None NORMAL None True
       (snd (Protocol_register_handler ''P'' (ProtocolType ''C'') (NodeCls ''Command'') None NORMAL None True
         (snd (Protocol_register ''C'' (NodeCls ''Command'') None
           (snd (Protocol_register ''P'' (NodeCls ''Command'') None
             (Protocol_init_subclass ''C'' (Some ''P'')
               (Protocol_init_subclass ''P'' None (initial_system command_env []))))))))))"

definition delegating_system :: "nat list system" where
  "delegating_system =
     snd (Protocol_init 2 ''P'' None Map.empty
            (snd (Protocol_init 2 ''P'' None Map.empty delegating_classes)))"

section \<open>Records: cache, origin and tag resolution\<close>

lemma Node_discard_keys_origin: "node_origin (Node_discard_keys self ks) = node_origin self"
  by (induction ks arbitrary: self) auto

lemma Node_discard_keys_buffer: "node_buffer (Node_discard_keys self ks) = node_buffer self"
  by (induction ks arbitrary: self) auto

lemma Node_discard_keys_cls: "node_cls (Node_discard_keys self ks) = node_cls self"
  by (induction ks arbitrary: self) auto

lemma Node_discard_keys_one: "node_data (Node_discard_keys self [k]) = (node_data self)(k := None)"
  by (auto simp: fun_eq_iff dom_def)

lemma Tree_set_switch_keeps_cache:
  "node_buffer (Tree_set_switch env self key) = node_buffer self
   \<and> node_origin (Tree_set_switch env self key) = node_origin self"
  by (simp add: Tree_set_switch_def)

lemmas update_simps = Node_update_def Command_update_def Node_discard_keys_origin
  Node_discard_keys_buffer Node_discard_keys_cls Node_discard_keys_one

text \<open>
  What the applications of \<open>Tree.case\<close> leave: a class registered in a tree other than
  itself gets the back link and the registry of the tree, the tree gets the entry, and the
  other classes are as they were.
\<close>

lemma Tree_case_apply:
  assumes "ncls \<noteq> cls"
  shows "Tree_case env cls val ncls c =
           (if c = ncls
            then (env ncls)\<lparr>switch_spec := Some (cls, val), registry_ref := registry_ref (env cls)\<rparr>
            else if c = cls then (env cls)\<lparr>nodes := dict_set (nodes (env cls)) val ncls\<rparr>
            else env c)"
  using assms by (simp add: Tree_case_def Let_def)

lemma cases_tree:
  assumes "t \<notin> snd ` set cs"
  shows "foldl (\<lambda>env (v, c). Tree_case env t (PInt v) c) env cs t =
           (env t)\<lparr>nodes := foldl (\<lambda>ns (v, c). dict_set ns (PInt v) c) (nodes (env t)) cs\<rparr>"
  using assms
proof (induction cs arbitrary: env)
  case Nil
  then show ?case by simp
next
  case (Cons a cs)
  obtain v c where a: "a = (v, c)" by (cases a)
  with Cons.prems have ne: "c \<noteq> t" and rest: "t \<notin> snd ` set cs" by auto
  define e1 where "e1 = Tree_case env t (PInt v) c"
  have e1t: "e1 t = (env t)\<lparr>nodes := dict_set (nodes (env t)) (PInt v) c\<rparr>"
    using ne by (simp add: e1_def Tree_case_apply)
  have "foldl (\<lambda>env (v, c). Tree_case env t (PInt v) c) env (a # cs) t
          = foldl (\<lambda>env (v, c). Tree_case env t (PInt v) c) e1 cs t"
    by (simp add: a e1_def)
  also have "\<dots> = (e1 t)\<lparr>nodes := foldl (\<lambda>ns (v, c). dict_set ns (PInt v) c) (nodes (e1 t)) cs\<rparr>"
    by (rule Cons.IH [OF rest])
  finally show ?case by (simp add: e1t a)
qed

lemma cases_leaf:
  assumes "t \<notin> snd ` set cs" and "x \<noteq> t"
  shows "foldl (\<lambda>env (v, c). Tree_case env t (PInt v) c) env cs x =
           (case map_of (map (\<lambda>(v, c). (c, v)) (rev cs)) x of
              None \<Rightarrow> env x
            | Some v \<Rightarrow> (env x)\<lparr>switch_spec := Some (t, PInt v), registry_ref := registry_ref (env t)\<rparr>)"
  using assms(1)
proof (induction cs arbitrary: env)
  case Nil
  then show ?case by simp
next
  case (Cons a cs)
  obtain v c where a: "a = (v, c)" by (cases a)
  with Cons.prems have ne: "c \<noteq> t" and rest: "t \<notin> snd ` set cs" by auto
  define e1 where "e1 = Tree_case env t (PInt v) c"
  have e1t: "registry_ref (e1 t) = registry_ref (env t)"
    using ne by (simp add: e1_def Tree_case_apply)
  have e1x: "e1 x = (if x = c then (env c)\<lparr>switch_spec := Some (t, PInt v),
                                             registry_ref := registry_ref (env t)\<rparr> else env x)"
    using ne assms(2) by (simp add: e1_def Tree_case_apply)
  have "foldl (\<lambda>env (v, c). Tree_case env t (PInt v) c) env (a # cs) x
          = foldl (\<lambda>env (v, c). Tree_case env t (PInt v) c) e1 cs x"
    by (simp add: a e1_def)
  also have "\<dots> = (case map_of (map (\<lambda>(v, c). (c, v)) (rev cs)) x of
              None \<Rightarrow> e1 x
            | Some v \<Rightarrow> (e1 x)\<lparr>switch_spec := Some (t, PInt v), registry_ref := registry_ref (e1 t)\<rparr>)"
    by (rule Cons.IH [OF rest])
  finally show ?case
    by (auto simp: e1t e1x a map_add_def split: option.splits)
qed

lemma repo_tree:
  "repo_classes ''SessionCommands'' =
     (Command_subclass ''SessionCommands'')
        \<lparr>case_key := Some ''type'', data_key := Some ''buffer'', default_node := Some ''Command'',
         nodes := map (\<lambda>(v, c). (PInt v, c))
                    [(6, ''UpdateTabNavigation''), (12, ''IDAndIndex''), (9, ''IDAndIndex''),
                     (8, ''IDAndIndex''), (7, ''IDAndIndex''), (5, ''IDAndIndex''),
                     (2, ''IDAndIndex''), (0, ''IDAndIndex''), (14, ''SetWindowBounds3''),
                     (16, ''TabClosed''), (17, ''WindowClosed''), (19, ''SessionStorageAssociated''),
                     (20, ''SetActiveWindow''), (21, ''LastActiveTime''), (23, ''SetWindowWorkspace'')]\<rparr>"
  unfolding repo_classes_def
  by (subst cases_tree) (simp_all add: session_cases_def command_env_def Command_subclass_def Tree_subclass_def)

lemma repo_leaf:
  assumes "x \<noteq> ''SessionCommands''"
  shows "repo_classes x =
     (case map_of (map (\<lambda>(v, c). (c, v)) (rev session_cases)) x of
        None \<Rightarrow> (if x = ''TabCommands'' then (Command_subclass x)\<lparr>default_node := Some ''Command''\<rparr>
                 else Command_subclass x)
      | Some v \<Rightarrow> (Command_subclass x)\<lparr>switch_spec := Some (''SessionCommands'', PInt v),
                                        registry_ref := ''SessionCommands''\<rparr>)"
  unfolding repo_classes_def
  apply (subst cases_leaf [OF _ assms])
   apply (simp add: session_cases_def)
  apply (auto simp: session_cases_def command_env_def Command_subclass_def Tree_subclass_def assms split: option.splits)
  done

lemmas nested_defs = nested_classes_def Tree_case_apply Tree_subclass_def raw_codecs_def
  Raw_dump_def Raw_read_def Node_init_def

lemmas repo_tree_defs = repo_tree Command_subclass_def Tree_subclass_def Node_init_def

text \<open>
  C6, as amended. For a record whose \<open>update\<close> is \<open>Node.update\<close> or \<open>Command.update\<close>
  (the two of the sources), \<open>feed\<close> with any change set clears both the cached encoding
  and the origin, so the next \<open>dump\<close> (of \<open>Node\<close>, and of \<open>Tree\<close> with
  \<open>standalone\<close> or for a class that is no case of a tree) returns what \<open>_dump\<close>
  computes from the fields as the feed left them:
  the old fields overridden by the changes, less the key \<open>_io\<close> for a Command. A \<open>read\<close>
  that returns has either decoded the buffer, and then the cache is empty and the origin is
  the buffer read, or decoded nothing and left the record as it was. \<open>dump\<close> and
  \<open>discard_keys\<close> keep the origin and both \<open>update\<close> methods clear it: only a
  successful decode sets one.
\<close>

theorem feed_invalidates:
  assumes "update_method (env (node_cls self)) = Node_update
           \<or> update_method (env (node_cls self)) = Command_update"
  shows "node_buffer (Node_feed env self changes) = PNone
   \<and> node_origin (Node_feed env self changes) = PNone
   \<and> fst (Node_dump cd (Node_feed env self changes) context)
       = dump_codec (cd (node_cls self)) (node_data (Node_feed env self changes)) context
   \<and> fst (Tree_dump (Suc depth) cd env (Node_feed env self changes) context True)
       = dump_codec (cd (node_cls self)) (node_data (Node_feed env self changes)) context
   \<and> (switch_spec (env (node_cls self)) = None \<longrightarrow>
         fst (Tree_dump (Suc depth) cd env (Node_feed env self changes) context False)
           = dump_codec (cd (node_cls self)) (node_data (Node_feed env self changes)) context)
   \<and> (update_method (env (node_cls self)) = Node_update \<longrightarrow>
         node_data (Node_feed env self changes) = node_data self ++ changes)
   \<and> (update_method (env (node_cls self)) = Command_update \<longrightarrow>
         node_data (Node_feed env self changes) = (node_data self ++ changes)(Some ''_io'' := None))
   \<and> (\<forall>self'. Node_read cd env self buf context = Inr self' \<longrightarrow>
         (case read_codec (cd (node_cls self)) buf context of
            Inr (Some d) \<Rightarrow> node_origin self' = buf \<and> node_buffer self' = PNone
          | _ \<Rightarrow> self' = self))
   \<and> node_origin (snd (Node_dump cd self context)) = node_origin self
   \<and> node_origin (Node_discard_keys self ks) = node_origin self
   \<and> node_origin (Node_update self) = PNone
   \<and> node_origin (Command_update self) = PNone"
proof -
  have clr: "node_buffer (Node_feed env self c) = PNone \<and> node_origin (Node_feed env self c) = PNone
             \<and> node_cls (Node_feed env self c) = node_cls self" for c
    using assms by (auto simp: Node_feed_def update_simps)
  have dmp: "fst (Node_dump cd (Node_feed env self changes) context)
       = dump_codec (cd (node_cls self)) (node_data (Node_feed env self changes)) context"
    using clr [of changes] by (simp add: Node_dump_def split: sum.splits)
  have tdmp: "fst (Tree_dump (Suc depth) cd env (Node_feed env self changes) context True)
       = dump_codec (cd (node_cls self)) (node_data (Node_feed env self changes)) context"
    using clr [of changes] by (simp add: Node_dump_def split: sum.splits)
  have ldmp: "switch_spec (env (node_cls self)) = None \<longrightarrow>
         fst (Tree_dump (Suc depth) cd env (Node_feed env self changes) context False)
           = dump_codec (cd (node_cls self)) (node_data (Node_feed env self changes)) context"
    using clr [of changes] by (simp add: Node_dump_def split: sum.splits)
  have rd: "\<forall>self'. Node_read cd env self buf context = Inr self' \<longrightarrow>
         (case read_codec (cd (node_cls self)) buf context of
            Inr (Some d) \<Rightarrow> node_origin self' = buf \<and> node_buffer self' = PNone
          | _ \<Rightarrow> self' = self)"
    using clr by (auto simp: Node_read_def split: sum.splits option.splits)
  have d1: "update_method (env (node_cls self)) = Node_update \<longrightarrow>
         node_data (Node_feed env self changes) = node_data self ++ changes"
    by (simp add: Node_feed_def Node_update_def)
  have d2: "update_method (env (node_cls self)) = Command_update \<longrightarrow>
         node_data (Node_feed env self changes) = (node_data self ++ changes)(Some ''_io'' := None)"
    by (simp add: Node_feed_def update_simps)
  have rest: "node_origin (snd (Node_dump cd self context)) = node_origin self
     \<and> node_origin (Node_discard_keys self ks) = node_origin self
     \<and> node_origin (Node_update self) = PNone
     \<and> node_origin (Command_update self) = PNone"
    by (simp add: Node_dump_def update_simps split: sum.splits)
  show ?thesis using clr [of changes] dmp tdmp ldmp rd d1 d2 rest by blast
qed

text \<open>
  The theorem at a \<open>Raw\<close> record with a cached encoding (after a feed the dump is the new
  field, and a read of another buffer sets the origin to that buffer) and at a Command
  that is fed the key \<open>_io\<close> (cache and origin are cleared and the key is discarded).
\<close>

theorem feed_invalidates_witness:
  "fst (Node_dump raw_codecs (Node_feed nested_classes cached_raw [Some ''buffer'' \<mapsto> PBytes [7]]) PNone)
     = Inr (PBytes [7])
   \<and> node_origin (Node_feed nested_classes cached_raw [Some ''buffer'' \<mapsto> PBytes [7]]) = PNone
   \<and> Node_read raw_codecs nested_classes cached_raw (PBytes [9]) PNone
       = Inr \<lparr>node_cls = ''Raw'', node_data = [Some ''buffer'' \<mapsto> PBytes [9]],
              node_buffer = PNone, node_origin = PBytes [9]\<rparr>
   \<and> node_buffer (Node_feed command_env cached_command [Some ''_io'' \<mapsto> PInt 1]) = PNone
   \<and> node_origin (Node_feed command_env cached_command [Some ''_io'' \<mapsto> PInt 1]) = PNone
   \<and> node_data (Node_feed command_env cached_command [Some ''_io'' \<mapsto> PInt 1]) (Some ''_io'') = None
   \<and> node_data (Node_feed command_env cached_command [Some ''_io'' \<mapsto> PInt 1]) (Some ''buffer'')
       = Some (PBytes [1, 2])"
proof -
  have h1: "update_method (nested_classes (node_cls cached_raw)) = Node_update
            \<or> update_method (nested_classes (node_cls cached_raw)) = Command_update"
    by (simp add: cached_raw_def nested_defs)
  have h2: "update_method (command_env (node_cls cached_command)) = Node_update
            \<or> update_method (command_env (node_cls cached_command)) = Command_update"
    by (simp add: cached_command_def command_env_def Command_subclass_def)
  note t1 = feed_invalidates [of nested_classes cached_raw "[Some ''buffer'' \<mapsto> PBytes [7]]"
      raw_codecs PNone 0 "PBytes [9]" "[]", OF h1]
  note t2 = feed_invalidates [of command_env cached_command "[Some ''_io'' \<mapsto> PInt 1]"
      raw_codecs PNone 0 "PBytes [9]" "[]", OF h2]
  have data1: "node_data (Node_feed nested_classes cached_raw [Some ''buffer'' \<mapsto> PBytes [7]])
                 = [Some ''buffer'' \<mapsto> PBytes [7]]"
    by (simp add: Node_feed_def cached_raw_def nested_defs Node_update_def)
  have a: "fst (Node_dump raw_codecs (Node_feed nested_classes cached_raw [Some ''buffer'' \<mapsto> PBytes [7]]) PNone)
             = Inr (PBytes [7])"
    using t1 [THEN conjunct2, THEN conjunct2, THEN conjunct1]
    by (simp add: data1 raw_codecs_def Raw_dump_def)
  have b: "node_origin (Node_feed nested_classes cached_raw [Some ''buffer'' \<mapsto> PBytes [7]]) = PNone"
    using t1 by blast
  have c: "Node_read raw_codecs nested_classes cached_raw (PBytes [9]) PNone
       = Inr \<lparr>node_cls = ''Raw'', node_data = [Some ''buffer'' \<mapsto> PBytes [9]],
              node_buffer = PNone, node_origin = PBytes [9]\<rparr>"
    by (simp add: Node_read_def Node_feed_def cached_raw_def nested_defs Node_update_def)
  have d: "node_buffer (Node_feed command_env cached_command [Some ''_io'' \<mapsto> PInt 1]) = PNone
           \<and> node_origin (Node_feed command_env cached_command [Some ''_io'' \<mapsto> PInt 1]) = PNone"
    using t2 by blast
  have upd: "update_method (command_env (node_cls cached_command)) = Command_update"
    by (simp add: cached_command_def command_env_def Command_subclass_def)
  have e: "node_data (Node_feed command_env cached_command [Some ''_io'' \<mapsto> PInt 1])
             = (node_data cached_command ++ [Some ''_io'' \<mapsto> PInt 1])(Some ''_io'' := None)"
    using t2 upd by blast
  have f: "node_data (Node_feed command_env cached_command [Some ''_io'' \<mapsto> PInt 1]) (Some ''_io'') = None"
    and g: "node_data (Node_feed command_env cached_command [Some ''_io'' \<mapsto> PInt 1]) (Some ''buffer'')
              = Some (PBytes [1, 2])"
    unfolding e by (simp_all add: cached_command_def)
  show ?thesis using a b c d f g by blast
qed

text \<open>
  Against C6 as stated (cache and origin cleared on every field mutation):
  \<open>discard_keys\<close> removes the field \<open>buffer\<close> of a \<open>Raw\<close> record with a cached
  encoding and clears neither the cache nor the origin, so \<open>dump\<close> still returns the
  cached bytes, where \<open>_dump\<close> on the fields that are left raises KeyError.
\<close>

theorem mutation_without_invalidation:
  "node_data (Node_discard_keys cached_raw [Some ''buffer'']) \<noteq> node_data cached_raw
   \<and> node_buffer (Node_discard_keys cached_raw [Some ''buffer'']) = PBytes [1, 2]
   \<and> node_origin (Node_discard_keys cached_raw [Some ''buffer'']) = PBytes [1, 2]
   \<and> fst (Node_dump raw_codecs (Node_discard_keys cached_raw [Some ''buffer'']) PNone)
       = Inr (PBytes [1, 2])
   \<and> dump_codec (raw_codecs ''Raw'')
        (node_data (Node_discard_keys cached_raw [Some ''buffer''])) PNone
       = Inl (KeyError (PStr ''buffer''))"
  by (auto simp: cached_raw_def raw_codecs_def Raw_dump_def Node_dump_def fun_eq_iff)

text \<open>
  C2, as amended. For a tree whose discriminator value is hashable and is not a key of
  its table \<open>nodes\<close>: when \<open>default_node\<close> is unset, \<open>switch\<close> raises
  NotImplementedError, whose message starts with the tag (then the case key and the
  context); when \<open>default_node\<close> is set, \<open>switch\<close> raises nothing and returns
  \<open>None\<close>, not the default class.
\<close>

theorem Tree_switch_unknown_tag:
  assumes "case_key (env (node_cls self)) = Some ck"
      and "node_data self (Some ck) = Some tag"
      and "hashable tag"
      and "map_of (nodes (env (node_cls self))) tag = None"
  shows "Tree_switch env self context =
           (if default_node (env (node_cls self)) = None
            then Inl (NotImplementedError tag (if ck = [] then ''(no case key)'' else ck) context)
            else Inr None)"
  using assms by (simp add: Tree_switch_def Tree_get_switch_def)

text \<open>
  The theorem at the record with the tag 99, with the default of \<open>SessionCommands\<close> and
  with the default removed.
\<close>

theorem Tree_switch_unknown_tag_witness:
  "Tree_switch repo_classes unknown_command PNone = Inr None
   \<and> Tree_switch
        (repo_classes(''SessionCommands'' := (repo_classes ''SessionCommands'')\<lparr>default_node := None\<rparr>))
        unknown_command (PStr ''ctx'')
      = Inl (NotImplementedError (PInt 99) ''type'' (PStr ''ctx''))"
  using Tree_switch_unknown_tag [of repo_classes unknown_command "''type''" "PInt 99" PNone]
    Tree_switch_unknown_tag
      [of "repo_classes(''SessionCommands'' := (repo_classes ''SessionCommands'')\<lparr>default_node := None\<rparr>)"
          unknown_command "''type''" "PInt 99" "PStr ''ctx''"]
  by (simp add: repo_tree_defs unknown_command_def)

text \<open>
  Against C2 as stated (the default type is returned): \<open>SessionCommands\<close> has the default
  \<open>Command\<close>, the tag 99 is not in its table, and \<open>switch\<close> returns \<open>None\<close>.
\<close>

theorem default_variant_not_returned:
  "default_node (repo_classes ''SessionCommands'') = Some ''Command''
   \<and> map_of (nodes (repo_classes ''SessionCommands'')) (PInt 99) = None
   \<and> Tree_switch repo_classes unknown_command PNone = Inr None
   \<and> Tree_switch repo_classes unknown_command PNone \<noteq> Inr (Some ''Command'')"
  by (simp add: repo_tree_defs unknown_command_def Tree_switch_def Tree_get_switch_def)

text \<open>
  C3 fails on the code. Let a leaf be registered as a case of a parent (it has the parent
  link), keep \<open>Tree\<close>'s \<open>case_key = None\<close>, as every class registered in
  src/snss/protocol.py does, and let its \<open>_dump\<close> build a buffer \<open>b\<close>. Then
  \<open>dump\<close> with \<open>standalone=False\<close> caches \<open>b\<close> and raises TypeError:
  \<open>from_dict({self.case_key: self.buffer})\<close> passes the keyword \<open>None\<close>. No envelope is
  returned, so there is nothing for the parent to read back.
\<close>

theorem envelope_dump_raises:
  assumes "case_key (env (node_cls self)) = None"
      and "has_switch (env (node_cls self))"
      and "switch_spec (env (node_cls self)) = Some (parent, tag)"
      and "Node_dump cd self context = (Inr b, self1)"
  shows "Tree_dump (Suc depth) cd env self context False
           = (Inl (TypeError ''keywords must be strings''), self1)"
  using assms by (auto simp: Node_from_dict_def Node_dump_def split: if_splits sum.splits)

text \<open>
  The theorem at the \<open>dump\<close> of a \<open>Leaf\<close> whose field \<open>buffer\<close> holds the bytes 1 and 2,
  \<open>Leaf\<close> being the case 2 of \<open>Inner\<close>.
\<close>

theorem envelope_dump_raises_witness:
  "switch_spec (nested_classes ''Leaf'') = Some (''Inner'', PInt 2)
   \<and> map_of (nodes (nested_classes ''Inner'')) (PInt 2) = Some ''Leaf''
   \<and> Tree_dump 5 raw_codecs nested_classes
         (Node_init ''Leaf'' [Some ''buffer'' \<mapsto> PBytes [1, 2]]) PNone False
       = (Inl (TypeError ''keywords must be strings''),
          \<lparr>node_cls = ''Leaf'', node_data = [Some ''buffer'' \<mapsto> PBytes [1, 2]],
           node_buffer = PBytes [1, 2], node_origin = PNone\<rparr>)"
  using envelope_dump_raises [of nested_classes "Node_init ''Leaf'' [Some ''buffer'' \<mapsto> PBytes [1, 2]]"
      "''Inner''" "PInt 2" raw_codecs PNone "PBytes [1, 2]"
      "\<lparr>node_cls = ''Leaf'', node_data = [Some ''buffer'' \<mapsto> PBytes [1, 2]],
        node_buffer = PBytes [1, 2], node_origin = PNone\<rparr>" 4]
  by (simp add: nested_defs Node_dump_def eval_nat_numeral)

text \<open>
  The same for the classes of src/snss/protocol.py, whatever their schemas: a record of a
  class registered with \<open>SessionCommands.case\<close> whose \<open>_dump\<close> builds a buffer cannot
  be dumped into its envelope.
\<close>

lemma session_leaf_attributes:
  assumes "(v, c) \<in> set session_cases"
  shows "case_key (repo_classes c) = None \<and> has_switch (repo_classes c)
         \<and> (\<exists>tag. switch_spec (repo_classes c) = Some (''SessionCommands'', tag))"
  using assms
  by (auto simp: session_cases_def repo_leaf Command_subclass_def Tree_subclass_def)

lemma session_leaf_dump_raises:
  assumes "(v, node_cls self) \<in> set session_cases"
      and "Node_dump cd self context = (Inr b, self1)"
  shows "Tree_dump (Suc depth) cd repo_classes self context False
           = (Inl (TypeError ''keywords must be strings''), self1)"
  using session_leaf_attributes [OF assms(1)] assms(2)
  by (auto simp: Node_from_dict_def Node_dump_def split: if_splits sum.splits)

section \<open>Handlers: argument assembly and fault isolation\<close>

lemmas scenario_defs = initial_system_def Protocol_init_subclass_def command_env_def Command_subclass_def
  Protocol_register_def Protocol_register_handler_def Protocol_configure_def
  Node_on_register_def on_register_def cond_check_def table_get_def table_put_def
  handle_collect_def handle_case_def heappush_def Handler_lt_def
  Protocol_call_handlers_def Protocol_call_handler_def Handler_call_def call_function_def
  Handler_args_def Handler_is_responder_def Handler_is_reducer_def logger_def raiser_def
  Tree_subclass_def Node_init_def Protocol_on_unknown_case_def Protocol_on_error_def
  same_cond_def Let_def eval_nat_numeral siftdown.simps

text \<open>
  C7, as amended. The arguments of a call are, in order: the protocol if
  \<open>pass_protocol\<close>, the node, the peer type \<open>responder_cls\<close> if the handler is a
  responder, the running value if it is a reducer. A Python function is a reducer exactly
  when it is tagged with \<open>is_reducer\<close>; it is a responder when it is tagged with
  \<open>is_responder\<close> or, untagged, when a peer type was given at registration.
\<close>

theorem Handler_call_arguments:
  "Handler_call ch h v p n s =
     call_function ch (h_function h)
       ((if h_pass_protocol h then [AProtocol p] else []) @ [ANode n]
        @ (if Handler_is_responder h then [AClass (h_responder_cls h)] else [])
        @ (if Handler_is_reducer h then [AValue v] else [])) s
   \<and> Handler_is_responder \<lparr>h_function = PyFunction r d b, h_responder_cls = rc,
                            h_status = st, h_pass_protocol = pp\<rparr> = (r \<or> rc \<noteq> None)
   \<and> Handler_is_reducer \<lparr>h_function = PyFunction r d b, h_responder_cls = rc,
                          h_status = st, h_pass_protocol = pp\<rparr> = d
   \<and> is_responder (PyFunction r d b) = Inr (PyFunction True d b)
   \<and> is_reducer (PyFunction r d b) = Inr (PyFunction r True b)"
  by (simp add: Handler_call_def Handler_args_def Handler_is_responder_def Handler_is_reducer_def)

text \<open>
  The theorem at a reducer registered with a peer type and \<open>pass_protocol\<close>: it receives
  the protocol, the node, the peer type and the value, in that order.
\<close>

theorem Handler_call_arguments_witness:
  "Handler_args \<lparr>h_function = shows_value, h_responder_cls = Some (NodeCls ''Command''),
                  h_status = URGENT, h_pass_protocol = True\<rparr> (PInt 1) 0 cached_command
     = [AProtocol 0, ANode cached_command, AClass (Some (NodeCls ''Command'')), AValue (PInt 1)]"
  using Handler_call_arguments
    [of "Protocol_handle 0"
        "\<lparr>h_function = shows_value, h_responder_cls = Some (NodeCls ''Command''),
          h_status = URGENT, h_pass_protocol = True\<rparr>"
        "PInt 1" 0 cached_command command_system
        False True "body shows_value" "Some (NodeCls ''Command'')" URGENT True]
  by (simp add: Handler_args_def shows_value_def Handler_is_responder_def Handler_is_reducer_def)

text \<open>
  Against C7 as stated (being a responder does not depend on whether a peer type was
  supplied): the same untagged function is a responder in a handler registered with a peer
  type and is none in a handler registered without.
\<close>

theorem responder_depends_on_peer_type:
  "responder_flag (logger ''f'') = False
   \<and> Handler_is_responder \<lparr>h_function = logger ''f'', h_responder_cls = Some (NodeCls ''Command''),
                            h_status = NORMAL, h_pass_protocol = True\<rparr>
   \<and> \<not> Handler_is_responder \<lparr>h_function = logger ''f'', h_responder_cls = None,
                              h_status = NORMAL, h_pass_protocol = True\<rparr>"
  by (simp add: Handler_is_responder_def logger_def)

lemma call_handlers_loop_append:
  "call_handlers_loop ch self node v (xs @ ys) s =
     (case call_handlers_loop ch self node v xs s of
        (Inl e, s1) \<Rightarrow> (Inl e, s1)
      | (Inr v1, s1) \<Rightarrow> call_handlers_loop ch self node v1 ys s1)"
  by (induction xs arbitrary: v s) (auto split: prod.splits sum.splits)

text \<open>
  A chain in which every exception a handler can raise is an \<open>Exception\<close> runs to its end:
  \<open>call_handlers\<close> returns and raises nothing.
\<close>

lemma call_handlers_loop_returns:
  assumes "\<forall>h\<in>set hs. \<forall>v s e s'. Handler_call ch h v self node s = (Inl e, s') \<longrightarrow> is_Exception e"
  shows "\<exists>v' s'. call_handlers_loop ch self node v hs s = (Inr v', s')"
  using assms
proof (induction hs arbitrary: v s)
  case Nil
  then show ?case by simp
next
  case (Cons h hs)
  have IH: "\<exists>v' s'. call_handlers_loop ch self node w hs t = (Inr v', s')" for w t
    using Cons by simp
  obtain r s1 where hc: "Handler_call ch h v self node s = (r, s1)"
    by (cases "Handler_call ch h v self node s")
  show ?case
  proof (cases r)
    case (Inl e)
    with hc Cons.prems have "is_Exception e" by auto
    with hc Inl have "Protocol_call_handler ch self v h node s = (Inr v, Protocol_on_error self node e s1)"
      by (simp add: Protocol_call_handler_def)
    with IH [of v "Protocol_on_error self node e s1"] show ?thesis by simp
  next
    case (Inr w)
    with hc have "Protocol_call_handler ch self v h node s = (Inr w, s1)"
      by (simp add: Protocol_call_handler_def)
    with IH [of w s1] show ?thesis by simp
  qed
qed

text \<open>
  C4. In a chain \<open>before @ h # after\<close>, let the handlers \<open>before\<close> have run and left the
  value \<open>v\<close>, and let the call of \<open>h\<close> with \<open>v\<close> raise an exception \<open>e\<close> of the
  \<open>Exception\<close> hierarchy. Then \<open>call_handler\<close> returns \<open>v\<close> and raises nothing,
  \<open>on_error\<close> has written its report of \<open>e\<close> (and changed nothing else of what the
  handlers act on), and the chain goes on with the handlers \<open>after\<close>, the first of which
  is passed \<open>v\<close>.
\<close>

theorem handler_fault_isolated:
  assumes pre: "call_handlers_loop ch self node v0 before s0 = (Inr v, s1)"
      and fault: "Handler_call ch h v self node s1 = (Inl e, s2)"
      and err: "is_Exception e"
  shows "Protocol_call_handler ch self v h node s1 = (Inr v, Protocol_on_error self node e s2)
         \<and> stderr (Protocol_on_error self node e s2) =
             stderr s2 @ [(''FATAL: exception caught during handling '' @ node_cls node @ '' node.'', e)]
         \<and> world (Protocol_on_error self node e s2) = world s2
         \<and> call_handlers_loop ch self node v0 (before @ h # after) s0 =
             call_handlers_loop ch self node v after (Protocol_on_error self node e s2)"
proof -
  have one: "Protocol_call_handler ch self v h node s1 = (Inr v, Protocol_on_error self node e s2)"
    using fault err by (simp add: Protocol_call_handler_def)
  have "call_handlers_loop ch self node v0 (before @ h # after) s0 =
          call_handlers_loop ch self node v (h # after) s1"
    using pre by (simp add: call_handlers_loop_append)
  also have "\<dots> = call_handlers_loop ch self node v after (Protocol_on_error self node e s2)"
    using one by simp
  finally show ?thesis
    using one by (simp add: Protocol_on_error_def)
qed

text \<open>
  The theorem at a chain of three: the first handler returns 1, the second raises, the
  third, a reducer, is passed 1; one report is written and the chain returns.
\<close>

theorem handler_fault_isolated_witness:
  "is_Exception (UserException ''boom'')
   \<and> fst (call_handlers_loop (Protocol_handle 0) 0 (Node_init ''Command'' Map.empty) PNone
        [as_handler returns_one, as_handler (raiser ''raises'' (UserException ''boom'')),
         as_handler shows_value]
        command_system) = Inr (PInt 2)
   \<and> world (snd (call_handlers_loop (Protocol_handle 0) 0 (Node_init ''Command'' Map.empty) PNone
        [as_handler returns_one, as_handler (raiser ''raises'' (UserException ''boom'')),
         as_handler shows_value]
        command_system)) = [''returns 1'', ''raises'', ''got 1'']
   \<and> stderr (snd (call_handlers_loop (Protocol_handle 0) 0 (Node_init ''Command'' Map.empty) PNone
        [as_handler returns_one, as_handler (raiser ''raises'' (UserException ''boom'')),
         as_handler shows_value]
        command_system))
      = [(''FATAL: exception caught during handling Command node.'', UserException ''boom'')]"
  using handler_fault_isolated [of "Protocol_handle 0" 0 "Node_init ''Command'' Map.empty" PNone
      "[as_handler returns_one]" command_system "PInt 1" "command_system\<lparr>world := [''returns 1'']\<rparr>"
      "as_handler (raiser ''raises'' (UserException ''boom''))" "UserException ''boom''"
      "command_system\<lparr>world := [''returns 1'', ''raises'']\<rparr>" "[as_handler shows_value]"]
  by (simp add: scenario_defs command_system_def as_handler_def returns_one_def shows_value_def)

section \<open>Construction, configuration and the wildcard\<close>

text \<open>
  The wildcard cannot be registered with \<open>register\<close>, and an entry for it in the registry
  makes the loop of \<open>configure\<close> raise AttributeError when it reaches the entry, whatever
  the guard: \<open>on_register\<close> is called on \<open>ALL_NODES\<close> before the flag is assigned. No
  entry before it stops the loop, so \<open>configure\<close> and the constructor raise whenever the
  registry holds the wildcard.
\<close>

lemma register_wildcard:
  "Protocol_register cls ALL_NODES condition s
     = (Inl (TypeError ''issubclass() arg 1 must be a class''), s)"
  by (simp add: Protocol_register_def)

lemma configure_registry_wildcard:
  "configure_registry self ((ALL_NODES, condition) # rest) s = (Inl (AttributeError ''on_register''), s)"
  by (simp add: on_register_def)







text \<open>
  Once \<open>_aborted\<close> is set, \<open>handle\<close> returns at once: nothing of the state changes, so no
  handler has run.
\<close>

lemma handle_aborted_noop:
  "i_aborted (instances s self) = Some True \<Longrightarrow> Protocol_handle (Suc depth) self node s = (Inr PNone, s)"
  by simp

text \<open>
  C5 fails on the code. The instance 0 of \<open>P\<close> exists and is not aborted; the registry of
  \<open>P\<close> holds the wildcard with a guard that is false. \<open>configure\<close> raises
  AttributeError, \<open>_aborted\<close> stays \<open>False\<close>, and a later \<open>handle\<close> still runs the
  handler. A construction over that registry raises the same error.
\<close>

theorem wildcard_guard_failure_raises:
  "cond_check (Some never) (i_config (instances wildcard_system 0)) None = False
   \<and> i_aborted (instances wildcard_system 0) = Some False
   \<and> fst (Protocol_configure (Protocol_init 1) 0 Map.empty wildcard_system)
       = Inl (AttributeError ''on_register'')
   \<and> i_aborted (instances (snd (Protocol_configure (Protocol_init 1) 0 Map.empty wildcard_system)) 0)
       = Some False
   \<and> world (snd (Protocol_handle 1 0 (Node_init ''Command'' Map.empty)
               (snd (Protocol_configure (Protocol_init 1) 0 Map.empty wildcard_system))))
       = [''NORMAL'']
   \<and> fst (Protocol_init 1 ''P'' None Map.empty wildcard_system) = Inl (AttributeError ''on_register'')"
  by (simp add: scenario_defs wildcard_system_def command_system_def never_def)

section \<open>Registration of a tree\<close>

text \<open>
  The flag \<open>recursive\<close> changes nothing: the test \<open>isinstance(node, Tree)\<close> fails for
  every class of the table, so the recursive call is never made.
\<close>

lemma register_tree_loop_recursive:
  "register_tree_loop again cls ns recursive c done s
     = register_tree_loop again' cls ns False c done s"
  by (induction ns arbitrary: "done" s) (auto simp: isinstance_Tree_def split: prod.splits sum.splits)

lemma register_tree_recursive_ignored:
  "Protocol_register_tree depth cls tree True c s = Protocol_register_tree depth cls tree False c s"
proof (cases depth)
  case 0
  then show ?thesis by simp
next
  case (Suc d)
  show ?thesis
    unfolding Suc Protocol_register_tree.simps by (rule register_tree_loop_recursive)
qed

text \<open>
  What \<open>register_tree\<close> does: with a condition that \<open>register\<close> accepts, it returns
  the classes of the table in order and each of them is in the registry under the
  condition, with \<open>recursive\<close> or without.
\<close>

lemma map_of_dict_set: "map_of (dict_set kvs k v) = (map_of kvs)(k \<mapsto> v)"
  by (induction kvs) (auto simp: fun_eq_iff)

lemma register_tree_loop_registers:
  assumes ok: "\<not> (case c of None \<Rightarrow> False | Some cnd \<Rightarrow> checks_node cnd)"
  shows "\<exists>s'. register_tree_loop again cls ns False c done s = (Inr (done @ map NodeCls ns), s')
           \<and> node_classes s' = node_classes s
           \<and> (\<forall>k. map_of (p_registry (pclasses s' cls)) k =
                  (if k \<in> NodeCls ` set ns then Some c else map_of (p_registry (pclasses s cls)) k))"
proof (induction ns arbitrary: "done" s)
  case Nil
  then show ?case by simp
next
  case (Cons n ns)
  let ?s1 = "s\<lparr>pclasses := (pclasses s)
                     (cls := (pclasses s cls)
                        \<lparr>p_registry := dict_set (p_registry (pclasses s cls)) (NodeCls n) c\<rparr>)\<rparr>"
  have reg: "Protocol_register cls (NodeCls n) c s = (Inr (NodeCls n), ?s1)"
    using ok by (simp add: Protocol_register_def)
  from Cons.IH [of "done @ [NodeCls n]" ?s1]
  obtain s' where s': "register_tree_loop again cls ns False c (done @ [NodeCls n]) ?s1
                         = (Inr ((done @ [NodeCls n]) @ map NodeCls ns), s')"
      "node_classes s' = node_classes ?s1"
      "\<forall>k. map_of (p_registry (pclasses s' cls)) k =
                  (if k \<in> NodeCls ` set ns then Some c else map_of (p_registry (pclasses ?s1 cls)) k)"
    by blast
  have "register_tree_loop again cls (n # ns) False c done s = (Inr (done @ map NodeCls (n # ns)), s')"
    using reg s'(1) by simp
  moreover have "node_classes s' = node_classes s" using s'(2) by simp
  moreover have "\<forall>k. map_of (p_registry (pclasses s' cls)) k =
                  (if k \<in> NodeCls ` set (n # ns) then Some c else map_of (p_registry (pclasses s cls)) k)"
    using s'(3) by (auto simp: map_of_dict_set)
  ultimately show ?case by blast
qed

lemma register_tree_registers_entries:
  assumes ok: "\<not> (case c of None \<Rightarrow> False | Some cnd \<Rightarrow> checks_node cnd)"
  shows "\<exists>s'. Protocol_register_tree (Suc depth) cls tree recursive c s
                 = (Inr (map (NodeCls \<circ> snd) (nodes (node_classes s tree))), s')
           \<and> (\<forall>n \<in> snd ` set (nodes (node_classes s tree)).
                  map_of (p_registry (pclasses s' cls)) (NodeCls n) = Some c)"
proof -
  from register_tree_loop_registers [OF ok, of "Protocol_register_tree depth cls tree recursive c" cls
      "map snd (nodes (node_classes s tree))" "[]" s]
  obtain s' where s': "register_tree_loop (Protocol_register_tree depth cls tree recursive c) cls
        (map snd (nodes (node_classes s tree))) False c [] s
       = (Inr ([] @ map NodeCls (map snd (nodes (node_classes s tree)))), s')"
     "\<forall>k. map_of (p_registry (pclasses s' cls)) k =
                  (if k \<in> NodeCls ` set (map snd (nodes (node_classes s tree))) then Some c
                   else map_of (p_registry (pclasses s cls)) k)"
    by blast
  have "Protocol_register_tree (Suc depth) cls tree recursive c s
          = (Inr (map (NodeCls \<circ> snd) (nodes (node_classes s tree))), s')"
    using s'(1)
      register_tree_loop_recursive [of "Protocol_register_tree depth cls tree recursive c" cls
        "map snd (nodes (node_classes s tree))" recursive c "[]" s
        "Protocol_register_tree depth cls tree recursive c"]
    by simp
  moreover have "\<forall>n \<in> snd ` set (nodes (node_classes s tree)).
                  map_of (p_registry (pclasses s' cls)) (NodeCls n) = Some c"
    using s'(2) by auto
  ultimately show ?thesis by blast
qed

text \<open>
  C8 fails on the code. The table of \<open>Outer\<close> holds the tree \<open>Inner\<close>, whose table holds
  \<open>Leaf\<close>. \<open>register_tree(Outer, recursive=True)\<close> registers \<open>Inner\<close> and nothing
  else: \<open>Leaf\<close> is not in the registry.
\<close>

theorem register_tree_does_not_descend:
  "is_tree (nested_classes ''Inner'')
   \<and> nodes (nested_classes ''Outer'') = [(PInt 1, ''Inner'')]
   \<and> nodes (nested_classes ''Inner'') = [(PInt 2, ''Leaf'')]
   \<and> fst (Protocol_register_tree 3 ''P'' ''Outer'' True None nested_system) = Inr [NodeCls ''Inner'']
   \<and> p_registry (pclasses (snd (Protocol_register_tree 3 ''P'' ''Outer'' True None nested_system)) ''P'')
       = [(NodeCls ''Inner'', None)]"
  by (simp add: nested_system_def nested_classes_def Tree_case_def scenario_defs isinstance_Tree_def)

section \<open>Dispatch: order and delegation\<close>

text \<open>
  What the heap does give: \<open>heappush\<close> keeps the heap property, so the list that
  \<open>call_handlers\<close> iterates over starts with a handler of the highest status. The order of
  the handlers after the first is that of the heap's list.
\<close>

lemma parent_less: "0 < i \<Longrightarrow> (i - 1) div 2 < (i::nat)"
  by (metis One_nat_def Suc_pred div_le_dividend le_imp_less_Suc)

lemma siftdown_heap_ok:
  assumes "sift_inv key h x pos"
  shows "heap_ok key (siftdown (\<lambda>a b. key a < key b) h x 0 pos)"
  using assms
proof (induction pos arbitrary: h rule: less_induct)
  case (less pos)
  have P1: "pos < length h"
    and P2: "\<And>i. 0 < i \<Longrightarrow> i < length h \<Longrightarrow> i \<noteq> pos \<Longrightarrow> (i - 1) div 2 \<noteq> pos
                \<Longrightarrow> key (h ! ((i - 1) div 2)) \<le> key (h ! i)"
    and P3: "\<And>c. 0 < c \<Longrightarrow> c < length h \<Longrightarrow> (c - 1) div 2 = pos \<Longrightarrow> key x \<le> key (h ! c)"
    and P4: "\<And>c. 0 < c \<Longrightarrow> c < length h \<Longrightarrow> (c - 1) div 2 = pos \<Longrightarrow> 0 < pos
                \<Longrightarrow> key (h ! ((pos - 1) div 2)) \<le> key (h ! c)"
    using less.prems unfolding sift_inv_def by blast+
  show ?case
  proof (cases "pos > 0 \<and> key x < key (h ! ((pos - 1) div 2))")
    case True
    define p where "p = (pos - 1) div 2"
    define h2 where "h2 = h[pos := h ! p]"
    have pp: "p < pos" using True parent_less p_def by simp
    have xp: "key x < key (h ! p)" using True p_def by simp
    have len: "length h2 = length h" by (simp add: h2_def)
    have h2_other: "\<And>j. j \<noteq> pos \<Longrightarrow> h2 ! j = h ! j" by (simp add: h2_def)
    have h2_pos: "h2 ! pos = h ! p" using P1 by (simp add: h2_def)
    have inv: "sift_inv key h2 x p"
      unfolding sift_inv_def
    proof (intro conjI allI impI)
      show "p < length h2" using pp P1 len by simp
    next
      fix i assume a: "0 < i \<and> i < length h2 \<and> i \<noteq> p \<and> (i - 1) div 2 \<noteq> p"
      then have ipos: "i \<noteq> pos" using p_def by auto
      show "key (h2 ! ((i - 1) div 2)) \<le> key (h2 ! i)"
      proof (cases "(i - 1) div 2 = pos")
        case True
        then have "key (h ! ((pos - 1) div 2)) \<le> key (h ! i)"
          using P4 [of i] a len \<open>pos > 0 \<and> key x < key (h ! ((pos - 1) div 2))\<close> by simp
        then show ?thesis using True h2_pos h2_other [OF ipos] p_def by simp
      next
        case False
        then show ?thesis using P2 [of i] a len ipos h2_other by simp
      qed
    next
      fix c assume a: "0 < c \<and> c < length h2 \<and> (c - 1) div 2 = p"
      show "key x \<le> key (h2 ! c)"
      proof (cases "c = pos")
        case True
        then show ?thesis using h2_pos xp by simp
      next
        case False
        have "(c - 1) div 2 \<noteq> pos" using a pp by simp
        then have "key (h ! p) \<le> key (h ! c)" using P2 [of c] a len False by simp
        then show ?thesis using h2_other [OF False] xp by simp
      qed
    next
      fix c assume a: "0 < c \<and> c < length h2 \<and> (c - 1) div 2 = p" and p0: "0 < p"
      have gp: "(p - 1) div 2 < p" using parent_less p0 by simp
      then have gp_pos: "(p - 1) div 2 \<noteq> pos" using pp by simp
      have e1: "key (h ! ((p - 1) div 2)) \<le> key (h ! p)"
        using P2 [of p] p0 pp P1 gp_pos by simp
      show "key (h2 ! ((p - 1) div 2)) \<le> key (h2 ! c)"
      proof (cases "c = pos")
        case True
        then show ?thesis using h2_pos h2_other [OF gp_pos] e1 by simp
      next
        case False
        have "(c - 1) div 2 \<noteq> pos" using a pp by simp
        then have "key (h ! p) \<le> key (h ! c)" using P2 [of c] a len False by simp
        then show ?thesis using h2_other [OF False] h2_other [OF gp_pos] e1 by simp
      qed
    qed
    have "siftdown (\<lambda>a b. key a < key b) h x 0 pos = siftdown (\<lambda>a b. key a < key b) h2 x 0 p"
      using True by (subst siftdown.simps) (simp add: Let_def p_def h2_def)
    then show ?thesis using less.IH [OF pp inv] by simp
  next
    case False
    have eq: "siftdown (\<lambda>a b. key a < key b) h x 0 pos = h[pos := x]"
      using False by (subst siftdown.simps) (auto simp: Let_def)
    show ?thesis unfolding eq heap_ok_def
    proof (intro allI impI)
      fix i assume i: "0 < i \<and> i < length (h[pos := x])"
      show "key (h[pos := x] ! ((i - 1) div 2)) \<le> key (h[pos := x] ! i)"
      proof (cases "i = pos")
        case True
        have "(pos - 1) div 2 \<noteq> pos" using parent_less [of pos] i True by simp
        then show ?thesis using True False i P1 by simp
      next
        case ne: False
        show ?thesis
        proof (cases "(i - 1) div 2 = pos")
          case True
          then show ?thesis using P3 [of i] i ne P1 by simp
        next
          case False
          then show ?thesis using P2 [of i] i ne by simp
        qed
      qed
    qed
  qed
qed

lemma heappush_heap_ok:
  assumes "heap_ok key h"
  shows "heap_ok key (heappush (\<lambda>a b. key a < key b) h x)"
proof -
  have "sift_inv key (h @ [x]) x (length h)"
    unfolding sift_inv_def
  proof (intro conjI allI impI)
    show "length h < length (h @ [x])" by simp
  next
    fix i assume a: "0 < i \<and> i < length (h @ [x]) \<and> i \<noteq> length h \<and> (i - 1) div 2 \<noteq> length h"
    then have il: "i < length h" by simp
    then have "(i - 1) div 2 < length h" using parent_less [of i] a by simp
    then show "key ((h @ [x]) ! ((i - 1) div 2)) \<le> key ((h @ [x]) ! i)"
      using assms a il by (simp add: heap_ok_def nth_append)
  next
    fix c assume a: "0 < c \<and> c < length (h @ [x]) \<and> (c - 1) div 2 = length h"
    then have False using parent_less [of c] by simp
    then show "key x \<le> key ((h @ [x]) ! c)" by simp
  next
    fix c assume a: "0 < c \<and> c < length (h @ [x]) \<and> (c - 1) div 2 = length h"
    then have False using parent_less [of c] by simp
    then show "key ((h @ [x]) ! ((length h - 1) div 2)) \<le> key ((h @ [x]) ! c)" by simp
  qed
  then show ?thesis unfolding heappush_def by (rule siftdown_heap_ok)
qed

lemma heap_ok_root:
  assumes "heap_ok key h" and "i < length h"
  shows "key (h ! 0) \<le> key (h ! i)"
  using assms(2)
proof (induction i rule: less_induct)
  case (less i)
  show ?case
  proof (cases "i = 0")
    case True
    then show ?thesis by simp
  next
    case False
    then have "(i - 1) div 2 < i" using parent_less by simp
    moreover have "key (h ! ((i - 1) div 2)) \<le> key (h ! i)"
      using assms(1) False less.prems by (simp add: heap_ok_def)
    ultimately show ?thesis using less.IH [of "(i - 1) div 2"] less.prems by simp
  qed
qed


lemma Handler_lt_key: "Handler_lt = (\<lambda>a b. handler_key a < handler_key b)"
  by (simp add: fun_eq_iff Handler_lt_def handler_key_def)

lemma handle_cases_heap_ok:
  assumes "heap_ok handler_key hs" and "handle_cases children cds hs = (Inr hs', cds')"
  shows "heap_ok handler_key hs'"
  using assms
proof (induction cds arbitrary: hs cds')
  case Nil
  then show ?case by simp
next
  case (Cons cd cds)
  obtain r cd1 where hc: "handle_case children cd = (r, cd1)" by (cases "handle_case children cd")
  show ?case
  proof (cases r)
    case (Inl e)
    with hc Cons.prems show ?thesis by simp
  next
    case (Inr h)
    obtain r2 cds1 where rest: "handle_cases children cds (heappush Handler_lt hs h) = (r2, cds1)"
      by (cases "handle_cases children cds (heappush Handler_lt hs h)")
    with hc Inr Cons.prems(2) have r2: "r2 = Inr hs'" by simp
    have "heap_ok handler_key (heappush Handler_lt hs h)"
      using Cons.prems(1) by (simp add: Handler_lt_key heappush_heap_ok)
    then show ?thesis using Cons.IH rest r2 by blast
  qed
qed

lemma handle_groups_heap_ok:
  assumes "heap_ok handler_key hs" and "handle_groups cfg node children gs hs = (Inr hs', gs')"
  shows "heap_ok handler_key hs'"
  using assms
proof (induction gs arbitrary: hs gs')
  case Nil
  then show ?case by simp
next
  case (Cons g gs)
  obtain condition cases where g: "g = (condition, cases)" by (cases g)
  show ?case
  proof (cases "cond_check condition cfg (Some node)")
    case True
    obtain r cases1 where hc: "handle_cases children cases hs = (r, cases1)"
      by (cases "handle_cases children cases hs")
    show ?thesis
    proof (cases r)
      case (Inl e)
      with hc g True Cons.prems show ?thesis by simp
    next
      case (Inr hs1)
      have ok1: "heap_ok handler_key hs1"
        using handle_cases_heap_ok Cons.prems(1) hc Inr by blast
      obtain r2 gs1 where rest: "handle_groups cfg node children gs hs1 = (r2, gs1)"
        by (cases "handle_groups cfg node children gs hs1")
      with hc Inr g True Cons.prems(2) have "r2 = Inr hs'" by simp
      then show ?thesis using Cons.IH ok1 rest by blast
    qed
  next
    case False
    obtain r2 gs1 where rest: "handle_groups cfg node children gs hs = (r2, gs1)"
      by (cases "handle_groups cfg node children gs hs")
    with g False Cons.prems(2) have "r2 = Inr hs'" by simp
    then show ?thesis using Cons.IH Cons.prems(1) rest by blast
  qed
qed

lemma handle_collect_heap_ok:
  assumes "handle_collect cfg node children tbl = (Inr hs, tbl')"
  shows "heap_ok handler_key hs"
proof -
  have empty: "heap_ok handler_key ([] :: 'a handler list)" by (simp add: heap_ok_def)
  obtain r1 g1 where first: "handle_groups cfg node children (table_get tbl (NodeCls (node_cls node))) [] = (r1, g1)"
    by (cases "handle_groups cfg node children (table_get tbl (NodeCls (node_cls node))) []")
  show ?thesis
  proof (cases r1)
    case (Inl e)
    with first assms show ?thesis by (simp add: handle_collect_def)
  next
    case (Inr hs1)
    have ok1: "heap_ok handler_key hs1" using handle_groups_heap_ok empty first Inr by blast
    obtain r2 g2 where second: "handle_groups cfg node children
        (table_get (table_put tbl (NodeCls (node_cls node)) g1) ALL_NODES) hs1 = (r2, g2)"
      by (cases "handle_groups cfg node children
        (table_get (table_put tbl (NodeCls (node_cls node)) g1) ALL_NODES) hs1")
    with first Inr assms have "r2 = Inr hs" by (simp add: handle_collect_def Let_def)
    then show ?thesis using handle_groups_heap_ok ok1 second by blast
  qed
qed

lemma first_handler_has_highest_status:
  assumes "handle_collect cfg node children tbl = (Inr (h # hs), tbl')" and "h' \<in> set (h # hs)"
  shows "status_value (h_status h') \<le> status_value (h_status h)"
proof -
  from assms(2) obtain i where i: "i < length (h # hs)" "(h # hs) ! i = h'"
    by (meson in_set_conv_nth)
  have "handler_key ((h # hs) ! 0) \<le> handler_key ((h # hs) ! i)"
    using heap_ok_root [OF handle_collect_heap_ok [OF assms(1)] i(1)] .
  then show ?thesis using i(2) by (simp add: handler_key_def)
qed

text \<open>
  C1 fails on the code. \<open>handle\<close> pushes the handlers on a heap and \<open>call_handlers\<close>
  iterates over the heap's list, which is not sorted. With handlers registered in the order
  DAEMON, NORMAL, URGENT the DAEMON handler runs before the NORMAL one; registered in the
  order NORMAL, URGENT, DAEMON they run in descending order.
\<close>

theorem dispatch_order_depends_on_registration:
  "dispatch_order [DAEMON, NORMAL, URGENT] = [''URGENT'', ''DAEMON'', ''NORMAL'']
   \<and> dispatch_order [NORMAL, URGENT, DAEMON] = [''URGENT'', ''NORMAL'', ''DAEMON'']"
  by (simp add: dispatch_order_def command_system_def scenario_defs)

text \<open>
  The loop body of \<open>handle\<close> at a stored dict whose function is a child class: the
  Handler is built for the bound \<open>handle\<close> of this instance's child, and the stored dict
  itself is rewritten to that bound method and to \<open>pass_protocol = False\<close>.
\<close>

lemma handle_case_redirects:
  assumes "c_function cd = Some (ProtocolType c)" and "map_of children c = Some child"
  shows "handle_case children cd =
           (Inr \<lparr>h_function = BoundHandle child, h_responder_cls = c_responder_cls cd,
                  h_status = c_status cd, h_pass_protocol = False\<rparr>,
            cd\<lparr>c_function := Some (Call (BoundHandle child)), c_pass_protocol := False\<rparr>)"
  using assms by (simp add: handle_case_def)

text \<open>
  C9 fails on the code. After the definitions the table of \<open>P\<close> holds the descriptor as
  registered: the class \<open>C\<close>, \<open>pass_protocol = True\<close>. The instance 2 alone would
  run the handler of its own child 3. After one \<open>handle\<close> by the instance 0 the stored
  descriptor holds the bound \<open>handle\<close> of the child 1 and \<open>pass_protocol = False\<close>,
  and a \<open>handle\<close> by the instance 2 then runs the handler of the child 1 again.
\<close>

theorem dispatch_mutates_descriptor:
  "p_handlers (pclasses delegating_system ''P'')
     = [(NodeCls ''Command'',
         [(None, [\<lparr>c_function = Some (ProtocolType ''C''), c_responder_cls = None,
                    c_status = NORMAL, c_pass_protocol = True\<rparr>])])]
   \<and> i_children (instances delegating_system 0) = [(''C'', 1)]
   \<and> i_children (instances delegating_system 2) = [(''C'', 3)]
   \<and> p_handlers (pclasses (snd (Protocol_handle 2 0 (Node_init ''Command'' Map.empty) delegating_system)) ''P'')
     = [(NodeCls ''Command'',
         [(None, [\<lparr>c_function = Some (Call (BoundHandle 1)), c_responder_cls = None,
                    c_status = NORMAL, c_pass_protocol = False\<rparr>])])]
   \<and> world (snd (Protocol_handle 2 2 (Node_init ''Command'' Map.empty) delegating_system)) = [3]
   \<and> world (snd (Protocol_handle 2 2 (Node_init ''Command'' Map.empty)
               (snd (Protocol_handle 2 0 (Node_init ''Command'' Map.empty) delegating_system)))) = [1, 1]"
  by (simp add: delegating_system_def delegating_classes_def who_runs_def scenario_defs)

end
